theory Spec2Isabelle
  imports Main "HOL-Library.List_Lexorder" "HOL-Library.Product_Lexorder" "HOL-Library.Sublist"
begin

section \<open>Text and cell values\<close>

text \<open>
  A Python \<open>str\<close> is a sequence of Unicode code points, so a string is a list of
  natural numbers. \<open>str\<close> reads an ASCII literal as such a string.
\<close>

type_synonym codepoint = nat
type_synonym ustr = "codepoint list"

definition str :: "string \<Rightarrow> ustr" where
  "str s = map of_char s"

text \<open>
  A cell of a table as the code meets it: \<open>None\<close>, a text, or a whole number.
  Amounts are whole numbers here; floating point is outside the model.
\<close>

datatype cell = PyNone | PyStr ustr | PyInt int

fun digits :: "nat \<Rightarrow> ustr" where
  "digits n = (if n < 10 then [48 + n] else digits (n div 10) @ [48 + n mod 10])"

declare digits.simps [simp del]

text \<open>\<open>str(x)\<close>.\<close>

fun py_str :: "cell \<Rightarrow> ustr" where
  "py_str PyNone = str ''None''"
| "py_str (PyStr s) = s"
| "py_str (PyInt i) = (if i < 0 then 45 # digits (nat (- i)) else digits (nat i))"

section \<open>norm_text\<close>

text \<open>
  The characters \<open>str.strip()\<close> removes and the class \<open>\s\<close> of a \<open>str\<close> pattern are the
  same set, the code points Python calls whitespace.
\<close>

definition is_space :: "codepoint \<Rightarrow> bool" where
  "is_space c \<longleftrightarrow>
     (9 \<le> c \<and> c \<le> 13) \<or> (28 \<le> c \<and> c \<le> 32) \<or> c = 0x85 \<or> c = 0xA0 \<or> c = 0x1680 \<or>
     (0x2000 \<le> c \<and> c \<le> 0x200A) \<or> c = 0x2028 \<or> c = 0x2029 \<or> c = 0x202F \<or>
     c = 0x205F \<or> c = 0x3000"

text \<open>\<open>s.strip()\<close>.\<close>

definition strip :: "ustr \<Rightarrow> ustr" where
  "strip s = rev (dropWhile is_space (rev (dropWhile is_space s)))"

text \<open>
  The tables of the Unicode character database that \<open>norm_text\<close> consults are not part
  of the repository, so they are a parameter: the full upper-case mapping of a code point
  (\<open>str.upper()\<close> maps character by character, possibly to several code points), the
  canonical decomposition of a string (\<open>unicodedata.normalize("NFD", s)\<close>) and the test
  \<open>unicodedata.category(c) == "Mn"\<close>.
\<close>

record unicodedata =
  to_upper :: "codepoint \<Rightarrow> ustr"
  normalize_NFD :: "ustr \<Rightarrow> ustr"
  category_Mn :: "codepoint \<Rightarrow> bool"

definition upper :: "unicodedata \<Rightarrow> ustr \<Rightarrow> ustr" where
  "upper U s = concat (map (to_upper U) s)"

text \<open>Line 17: decompose, then drop the nonspacing marks.\<close>

definition quita_tildes :: "unicodedata \<Rightarrow> ustr \<Rightarrow> ustr" where
  "quita_tildes U s = filter (\<lambda>c. \<not> category_Mn U c) (normalize_NFD U s)"

text \<open>The characters that \<open>[^A-Z0-9\s]\<close> does not match.\<close>

definition kept :: "codepoint \<Rightarrow> bool" where
  "kept c \<longleftrightarrow> (65 \<le> c \<and> c \<le> 90) \<or> (48 \<le> c \<and> c \<le> 57) \<or> is_space c"

text \<open>Line 19: \<open>re.sub(r"[^A-Z0-9\s]", " ", s)\<close> rewrites one character at a time.\<close>

definition sub_punct :: "ustr \<Rightarrow> ustr" where
  "sub_punct s = map (\<lambda>c. if kept c then c else 32) s"

text \<open>
  Line 21: \<open>re.sub(r"\s+", " ", s)\<close> replaces every maximal run of whitespace, found from
  the left, by one space.
\<close>

function sub_spaces :: "ustr \<Rightarrow> ustr" where
  "sub_spaces [] = []"
| "sub_spaces (c # cs) =
     (if is_space c then 32 # sub_spaces (dropWhile is_space cs) else c # sub_spaces cs)"
  by pat_completeness auto
termination
  by (relation "measure length") (auto simp: length_dropWhile_le le_imp_less_Suc)

definition norm_text :: "unicodedata \<Rightarrow> cell \<Rightarrow> ustr" where
  "norm_text U x =
     (case x of
        PyNone \<Rightarrow> []
      | _ \<Rightarrow> strip (sub_spaces (sub_punct (quita_tildes U (upper U (strip (py_str x)))))))"

subsection \<open>An excerpt of the Unicode tables\<close>

text \<open>
  For running \<open>norm_text\<close> on examples: the Unicode tables restricted to Basic Latin and
  the Latin-1 Supplement (code points below \<open>0x100\<close>), where they are exact. Upper-casing
  leaves that range at two places (\<open>0xB5\<close> and \<open>0xFF\<close>), whose images are covered as well.
\<close>

definition latin1_upper :: "codepoint \<Rightarrow> ustr" where
  "latin1_upper c =
     (if 97 \<le> c \<and> c \<le> 122 then [c - 32]
      else if c = 0xB5 then [0x39C]
      else if c = 0xDF then [83, 83]
      else if 0xE0 \<le> c \<and> c \<le> 0xFE \<and> c \<noteq> 0xF7 then [c - 32]
      else if c = 0xFF then [0x178]
      else [c])"

text \<open>Canonical decompositions: code point, base letter, combining mark.\<close>

definition latin1_decompositions :: "(codepoint \<times> ustr) list" where
  "latin1_decompositions =
     [(0xC0, [65, 0x300]), (0xC1, [65, 0x301]), (0xC2, [65, 0x302]), (0xC3, [65, 0x303]),
      (0xC4, [65, 0x308]), (0xC5, [65, 0x30A]), (0xC7, [67, 0x327]),
      (0xC8, [69, 0x300]), (0xC9, [69, 0x301]), (0xCA, [69, 0x302]), (0xCB, [69, 0x308]),
      (0xCC, [73, 0x300]), (0xCD, [73, 0x301]), (0xCE, [73, 0x302]), (0xCF, [73, 0x308]),
      (0xD1, [78, 0x303]),
      (0xD2, [79, 0x300]), (0xD3, [79, 0x301]), (0xD4, [79, 0x302]), (0xD5, [79, 0x303]),
      (0xD6, [79, 0x308]),
      (0xD9, [85, 0x300]), (0xDA, [85, 0x301]), (0xDB, [85, 0x302]), (0xDC, [85, 0x308]),
      (0xDD, [89, 0x301]), (0x178, [89, 0x308]),
      (0xE0, [97, 0x300]), (0xE1, [97, 0x301]), (0xE2, [97, 0x302]), (0xE3, [97, 0x303]),
      (0xE4, [97, 0x308]), (0xE5, [97, 0x30A]), (0xE7, [99, 0x327]),
      (0xE8, [101, 0x300]), (0xE9, [101, 0x301]), (0xEA, [101, 0x302]), (0xEB, [101, 0x308]),
      (0xEC, [105, 0x300]), (0xED, [105, 0x301]), (0xEE, [105, 0x302]), (0xEF, [105, 0x308]),
      (0xF1, [110, 0x303]),
      (0xF2, [111, 0x300]), (0xF3, [111, 0x301]), (0xF4, [111, 0x302]), (0xF5, [111, 0x303]),
      (0xF6, [111, 0x308]),
      (0xF9, [117, 0x300]), (0xFA, [117, 0x301]), (0xFB, [117, 0x302]), (0xFC, [117, 0x308]),
      (0xFD, [121, 0x301]), (0xFF, [121, 0x308])]"

definition latin1_decompose :: "codepoint \<Rightarrow> ustr" where
  "latin1_decompose c = (case map_of latin1_decompositions c of Some d \<Rightarrow> d | None \<Rightarrow> [c])"

definition latin1 :: unicodedata where
  "latin1 =
     \<lparr>to_upper = latin1_upper,
      normalize_NFD = (\<lambda>s. concat (map latin1_decompose s)),
      category_Mn = (\<lambda>c. 0x300 \<le> c \<and> c \<le> 0x36F)\<rparr>"

text \<open>
  What the idempotence of \<open>norm_text\<close> needs of the tables, and what Unicode grants:
  upper-casing and canonical decomposition leave the capital letters A to Z, the digits
  and the space alone, and none of them is a nonspacing mark.
\<close>

definition plain :: "codepoint \<Rightarrow> bool" where
  "plain c \<longleftrightarrow> (65 \<le> c \<and> c \<le> 90) \<or> (48 \<le> c \<and> c \<le> 57) \<or> c = 32"

definition fixes_plain :: "unicodedata \<Rightarrow> bool" where
  "fixes_plain U \<longleftrightarrow>
     (\<forall>c. plain c \<longrightarrow> to_upper U c = [c] \<and> \<not> category_Mn U c) \<and>
     (\<forall>s. list_all plain s \<longrightarrow> normalize_NFD U s = s)"

text \<open>The shape of a normalized key.\<close>

definition no_edge_space :: "ustr \<Rightarrow> bool" where
  "no_edge_space s \<longleftrightarrow> (\<forall>t. s \<noteq> 32 # t) \<and> (\<forall>t. s \<noteq> t @ [32])"

definition no_double_space :: "ustr \<Rightarrow> bool" where
  "no_double_space s \<longleftrightarrow> (\<forall>a b. s \<noteq> a @ [32, 32] @ b)"

section \<open>Errors\<close>

text \<open>The exceptions the modelled code can raise; \<open>KeyError\<close> carries its argument.\<close>

datatype error =
  KeyError ustr | AttributeError | IndexError | ValueError | TypeError | ReError
  | UnicodeEncodeError

definition then_do :: "error + 'a \<Rightarrow> ('a \<Rightarrow> error + 'b) \<Rightarrow> error + 'b" where
  "then_do m f = (case m of Inl e \<Rightarrow> Inl e | Inr x \<Rightarrow> f x)"

section \<open>Data frames\<close>

text \<open>
  A \<open>DataFrame\<close> as \<open>pd.DataFrame(rows, columns=header)\<close> builds it: the column labels
  and the records, each aligned to the labels by position. The row index is not modelled;
  no modelled operation reads it.
\<close>

record table =
  columns :: "cell list"
  rows :: "cell list list"

text \<open>
  A frame has one cell per label in every record. The operations below are those of pandas
  when the labels are distinct (for a repeated label \<open>df[c]\<close> is a frame, not a column).
\<close>

definition wf_table :: "table \<Rightarrow> bool" where
  "wf_table t \<longleftrightarrow>
     distinct (columns t) \<and> list_all (\<lambda>r. length r = length (columns t)) (rows t)"

fun index_of :: "'a \<Rightarrow> 'a list \<Rightarrow> nat option" where
  "index_of x [] = None"
| "index_of x (y # ys) = (if x = y then Some 0 else map_option Suc (index_of x ys))"

text \<open>\<open>df[c]\<close>: the column, or \<open>KeyError\<close>.\<close>

definition column :: "table \<Rightarrow> cell \<Rightarrow> error + cell list" where
  "column t c =
     (case index_of c (columns t) of
        None \<Rightarrow> Inl (KeyError (py_str c))
      | Some i \<Rightarrow> Inr (map (\<lambda>r. r ! i) (rows t)))"

text \<open>The cell of a record under a label, for stating properties of records.\<close>

definition cell_of :: "table \<Rightarrow> cell \<Rightarrow> cell list \<Rightarrow> cell" where
  "cell_of t c r = (case index_of c (columns t) of None \<Rightarrow> PyNone | Some i \<Rightarrow> r ! i)"

text \<open>
  \<open>df[c] = series\<close> overwrites the column in place, or appends it as the last one.
  \<open>with_cell\<close> is what this does to one record.
\<close>

definition with_cell :: "table \<Rightarrow> cell \<Rightarrow> cell \<Rightarrow> cell list \<Rightarrow> cell list" where
  "with_cell t c v r = (case index_of c (columns t) of Some i \<Rightarrow> r[i := v] | None \<Rightarrow> r @ [v])"

definition set_column :: "table \<Rightarrow> cell \<Rightarrow> cell list \<Rightarrow> table" where
  "set_column t c vs =
     \<lparr>columns = (if c \<in> set (columns t) then columns t else columns t @ [c]),
      rows = map2 (\<lambda>r v. with_cell t c v r) (rows t) vs\<rparr>"

text \<open>\<open>df[mask]\<close> for a boolean series: the records whose mask entry is true, in order.\<close>

definition select :: "table \<Rightarrow> bool list \<Rightarrow> table" where
  "select t bs = t\<lparr>rows := map fst (filter snd (zip (rows t) bs))\<rparr>"

text \<open>\<open>df.empty\<close>: some axis has length zero.\<close>

definition empty :: "table \<Rightarrow> bool" where
  "empty t \<longleftrightarrow> rows t = [] \<or> columns t = []"

text \<open>\<open>s.head(n)\<close> is \<open>s[:n]\<close>: a negative \<open>n\<close> drops the last \<open>-n\<close> entries.\<close>

definition head :: "int \<Rightarrow> 'a list \<Rightarrow> 'a list" where
  "head n xs = (if 0 \<le> n then take (nat n) xs else take (length xs - nat (- n)) xs)"

section \<open>read_named_table\<close>

text \<open>
  The workbook as openpyxl presents it: a list of worksheets, each with its dictionary of
  named tables and its grid of cell values (\<open>data_only=True\<close>). \<open>range_boundaries(tbl.ref)\<close>
  is the table's rectangle.
\<close>

record boundaries =
  min_col :: nat
  min_row :: nat
  max_col :: nat
  max_row :: nat

record worksheet =
  tables :: "ustr \<rightharpoonup> boundaries"
  cell_value :: "nat \<Rightarrow> nat \<Rightarrow> cell"

type_synonym workbook = "worksheet list"

text \<open>\<open>ws.iter_rows(..., values_only=True)\<close>: the rows of the rectangle, top to bottom.\<close>

definition iter_rows :: "worksheet \<Rightarrow> boundaries \<Rightarrow> cell list list" where
  "iter_rows ws b =
     map (\<lambda>r. map (\<lambda>c. cell_value ws r c) [min_col b ..< Suc (max_col b)])
       [min_row b ..< Suc (max_row b)]"

definition no_encontre :: "ustr \<Rightarrow> ustr" where
  "no_encontre table_name = str ''No encontr'' @ [0xE9] @ str '' la tabla: '' @ table_name"

text \<open>\<open>st.cache_data\<close> memoizes the function; its result is the one computed here.\<close>

fun read_named_table :: "workbook \<Rightarrow> ustr \<Rightarrow> error + table" where
  "read_named_table [] table_name = Inl (KeyError (no_encontre table_name))"
| "read_named_table (ws # wb) table_name =
     (case tables ws table_name of
        Some tbl \<Rightarrow>
          (case iter_rows ws tbl of
             [] \<Rightarrow> Inl IndexError
           | header # rs \<Rightarrow> Inr \<lparr>columns = header, rows = rs\<rparr>)
      | None \<Rightarrow> read_named_table wb table_name)"

section \<open>top_by_sum\<close>








text \<open>
  A value column that is not int64 is summed otherwise: a missing value among the numbers
  makes the column float64, summed in floating point, and a text or a number beyond 64
  bits makes it an object column, summed with Python's \<open>+\<close>. These sums belong to pandas,
  not to the repository, and are not followed
  here: what \<open>groupby(...)[...].sum().sort_values(ascending=False)\<close> gives for the group
  column and such a value column, a series of labelled values or an exception, is a
  parameter.
\<close>

type_synonym series = "(cell \<times> cell) list"




section \<open>Regular expressions\<close>

text \<open>
  \<open>Series.str.contains(pat)\<close> reads \<open>pat\<close> as a regular expression (\<open>regex=True\<close> is the
  default): it compiles the pattern once, which can fail, and keeps the entries in which
  \<open>search\<close> finds a match. Python's \<open>re\<close> module is not part of the repository, so it is
  a parameter: \<open>compile\<close> gives the search predicate of a pattern, or nothing for a
  pattern that is not a regular expression; \<open>compile_ignorecase\<close> does so under
  \<open>re.IGNORECASE\<close> (\<open>case=False\<close>).
\<close>

record re =
  compile :: "ustr \<Rightarrow> (ustr \<Rightarrow> bool) option"
  compile_ignorecase :: "ustr \<Rightarrow> (ustr \<Rightarrow> bool) option"

type_synonym compiler = "ustr \<Rightarrow> (ustr \<Rightarrow> bool) option"

definition str_contains :: "compiler \<Rightarrow> ustr list \<Rightarrow> ustr \<Rightarrow> error + bool list" where
  "str_contains re_compile series pat =
     (case re_compile pat of None \<Rightarrow> Inl ReError | Some found \<Rightarrow> Inr (map found series))"

subsection \<open>An excerpt of the regular expressions\<close>

text \<open>
  For running the filters on examples: the patterns whose only special character is the
  dot, where the functions below are exact. A dot matches any character but a line feed,
  any other character matches itself, and \<open>search\<close> looks for a match at every position.
  Patterns with another special character are outside the excerpt, which gives nothing for
  them.
\<close>

definition re_special :: "codepoint \<Rightarrow> bool" where
  \<comment> \<open>backslash, caret, dollar, star, plus, question mark, braces, brackets, bar, parentheses\<close>
  "re_special c \<longleftrightarrow> c \<in> set [92, 94, 36, 42, 43, 63, 123, 125, 91, 93, 124, 40, 41]"

fun match_here :: "ustr \<Rightarrow> ustr \<Rightarrow> bool" where
  "match_here [] s = True"
| "match_here (p # ps) [] = False"
| "match_here (p # ps) (c # cs) = ((if p = 46 then c \<noteq> 10 else c = p) \<and> match_here ps cs)"

fun search :: "ustr \<Rightarrow> ustr \<Rightarrow> bool" where
  "search p [] = match_here p []"
| "search p (c # cs) = (match_here p (c # cs) \<or> search p cs)"

text \<open>Letters of Basic Latin in lower case, for matching without regard to case.\<close>

definition ascii_lower :: "codepoint \<Rightarrow> codepoint" where
  "ascii_lower c = (if 65 \<le> c \<and> c \<le> 90 then c + 32 else c)"

definition dots :: re where
  "dots =
     \<lparr>compile = (\<lambda>p. if list_ex re_special p then None else Some (search p)),
      compile_ignorecase =
        (\<lambda>p. if list_ex re_special p \<or> list_ex (\<lambda>c. 128 \<le> c) p then None
             else Some (\<lambda>s. search (map ascii_lower p) (map ascii_lower s)))\<rparr>"

section \<open>The department filter\<close>

text \<open>
  Lines 103 to 127 of the script, run on the six loaded frames and the department chosen in
  the select box. The assignments of lines 104, 110 and 111 write into the loaded frames,
  so the function returns the frames as they are afterwards, next to the filtered views.
\<close>

record dataset =
  infogeneral :: table
  plan :: table
  ciclope :: table
  colcol :: table
  contrapartidas :: table
  proyectos :: table

record views =
  info :: table
  cic_dept :: table
  proj_dept :: table
  colcol_dept :: table
  contr_dept :: table

definition DEPT_COL_INFO :: cell where
  "DEPT_COL_INFO = PyStr (str ''Departamento'')"

definition DEPARTAMENTO :: cell where
  "DEPARTAMENTO = PyStr (str ''DEPARTAMENTO'')"

definition DEPT_NORM :: cell where
  "DEPT_NORM = PyStr (str ''DEPT_NORM'')"

definition DESARROLLO :: cell where
  "DESARROLLO = PyStr (str ''DEPARTAMENTO EN EL QUE SE DESARROLL'' @ [0xD3])"

definition PARTICIPANTES :: cell where
  "PARTICIPANTES = PyStr (str ''DEPARTAMENTOS PARTICIPANTES'')"

definition MAY :: cell where
  "MAY = PyStr (str ''DEPARTAMENTOS MAY'')"

text \<open>\<open>df["DEPT_NORM"] = df[c].map(norm_text)\<close>.\<close>

definition assign_dept_norm :: "unicodedata \<Rightarrow> table \<Rightarrow> cell \<Rightarrow> error + table" where
  "assign_dept_norm U df c =
     then_do (column df c) (\<lambda>vs.
     Inr (set_column df DEPT_NORM (map (\<lambda>v. PyStr (norm_text U v)) vs)))"

text \<open>
  \<open>df[df[c] == v]\<close> for a text \<open>v\<close>: a cell equals it when it is that text.
\<close>

definition where_eq :: "table \<Rightarrow> cell \<Rightarrow> ustr \<Rightarrow> error + table" where
  "where_eq df c v =
     then_do (column df c) (\<lambda>vs. Inr (select df (map (\<lambda>x. x = PyStr v) vs)))"

text \<open>
  \<open>df.get(c, "")\<close> is the column when the frame has it and the default, the text \<open>""\<close>,
  otherwise. \<open>.astype(str)\<close> exists on a column only: on the text it raises
  \<open>AttributeError\<close>.
\<close>

datatype got = Series "cell list" | Default ustr

definition get :: "table \<Rightarrow> cell \<Rightarrow> ustr \<Rightarrow> got" where
  "get df c d = (case column df c of Inr vs \<Rightarrow> Series vs | Inl e \<Rightarrow> Default d)"

fun astype_str :: "got \<Rightarrow> error + ustr list" where
  "astype_str (Series vs) = Inr (map py_str vs)"
| "astype_str (Default d) = Inl AttributeError"

text \<open>The element-wise \<open>|\<close> of boolean series.\<close>

definition series_or :: "bool list \<Rightarrow> bool list \<Rightarrow> bool list" where
  "series_or xs ys = map2 (\<or>) xs ys"

text \<open>Lines 117 to 121; the operands of \<open>|\<close> are evaluated from left to right.\<close>

definition colcol_filter :: "re \<Rightarrow> table \<Rightarrow> ustr \<Rightarrow> error + table" where
  "colcol_filter R df dept =
     then_do (astype_str (get df DESARROLLO [])) (\<lambda>a.
     then_do (astype_str (get df PARTICIPANTES [])) (\<lambda>b.
     then_do (str_contains (compile R) b dept) (\<lambda>in_b.
     then_do (astype_str (get df MAY [])) (\<lambda>c.
     then_do (str_contains (compile R) c dept) (\<lambda>in_c.
     Inr (select df (series_or (series_or (map (\<lambda>x. x = dept) a) in_b) in_c)))))))"

text \<open>
  Lines 123 to 127; \<open>df.iloc[0:0]\<close> is the frame without its records. The label
  \<open>"Departamento"\<close> is the text that \<open>DEPT_COL_INFO\<close> names.
\<close>

definition contr_filter :: "table \<Rightarrow> ustr \<Rightarrow> error + table" where
  "contr_filter df dept =
     (if DEPT_COL_INFO \<in> set (columns df) then where_eq df DEPT_COL_INFO dept
      else Inr (df\<lparr>rows := []\<rparr>))"

definition filter_by_department ::
    "unicodedata \<Rightarrow> re \<Rightarrow> dataset \<Rightarrow> ustr \<Rightarrow> error + dataset \<times> views" where
  "filter_by_department U R d dept =
     (let dept_norm = norm_text U (PyStr dept) in
      then_do (assign_dept_norm U (infogeneral d) DEPT_COL_INFO) (\<lambda>infogeneral'.
      then_do (where_eq infogeneral' DEPT_NORM dept_norm) (\<lambda>matching.
      then_do (assign_dept_norm U (ciclope d) DEPARTAMENTO) (\<lambda>ciclope'.
      then_do (assign_dept_norm U (proyectos d) DEPARTAMENTO) (\<lambda>proyectos'.
      then_do (where_eq ciclope' DEPT_NORM dept_norm) (\<lambda>cic.
      then_do (where_eq proyectos' DEPT_NORM dept_norm) (\<lambda>proj.
      then_do (colcol_filter R (colcol d) dept) (\<lambda>col.
      then_do (contr_filter (contrapartidas d) dept) (\<lambda>contr.
      Inr (d\<lparr>infogeneral := infogeneral', ciclope := ciclope', proyectos := proyectos'\<rparr>,
           \<lparr>info = matching\<lparr>rows := head 1 (rows matching)\<rparr>, cic_dept = cic,
            proj_dept = proj, colcol_dept = col, contr_dept = contr\<rparr>))))))))))"

text \<open>
  What the assignments of lines 104, 110 and 111 leave of a loaded frame: the labels, with
  \<open>DEPT_NORM\<close> added as the last one unless the frame had it, the number of records, and
  every other column of the frame, cell by cell.
\<close>

definition same_but_dept_norm :: "table \<Rightarrow> table \<Rightarrow> bool" where
  "same_but_dept_norm t t' \<longleftrightarrow>
     columns t' = (if DEPT_NORM \<in> set (columns t) then columns t else columns t @ [DEPT_NORM]) \<and>
     length (rows t') = length (rows t) \<and>
     list_all (\<lambda>c. c = DEPT_NORM \<or> column t' c = column t c) (columns t)"

section \<open>The project listing and its export\<close>

text \<open>
  \<open>df.to_csv(index=False)\<close> hands the labels and then every record to a \<open>csv\<close> writer with
  the default dialect: a missing value is written as the empty text; a field holding a
  comma, a double quote, a line feed or a carriage return is put in double quotes, its own
  double quotes doubled; a record that is one empty field is written as two double quotes;
  every record ends with the line terminator (a line feed, as on POSIX systems).
\<close>

fun csv_text :: "cell \<Rightarrow> ustr" where
  "csv_text PyNone = []"
| "csv_text c = py_str c"

definition csv_special :: "codepoint \<Rightarrow> bool" where
  "csv_special c \<longleftrightarrow> c = 44 \<or> c = 34 \<or> c = 10 \<or> c = 13"

definition csv_field :: "ustr \<Rightarrow> ustr" where
  "csv_field s =
     (if list_ex csv_special s
      then [34] @ concat (map (\<lambda>c. if c = 34 then [34, 34] else [c]) s) @ [34]
      else s)"

fun join :: "ustr \<Rightarrow> ustr list \<Rightarrow> ustr" where
  "join sep [] = []"
| "join sep [x] = x"
| "join sep (x # y # ys) = x @ sep @ join sep (y # ys)"

definition writerow :: "ustr list \<Rightarrow> ustr" where
  "writerow fs =
     (if fs = [[]] then [34, 34] else join [44] (map csv_field fs)) @ [10]"

text \<open>The writer appends to its buffer: first the header, then the records in order.\<close>

definition to_csv :: "table \<Rightarrow> ustr" where
  "to_csv df =
     foldl (\<lambda>buffer r. buffer @ writerow (map csv_text r))
       (writerow (map csv_text (columns df))) (rows df)"

text \<open>
  \<open>s.encode("utf-8")\<close>: one to four bytes per code point; a surrogate cannot be encoded.
\<close>

type_synonym byte = nat

definition utf8_char :: "codepoint \<Rightarrow> error + byte list" where
  "utf8_char c =
     (if c < 0x80 then Inr [c]
      else if c < 0x800 then Inr [0xC0 + c div 64, 0x80 + c mod 64]
      else if 0xD800 \<le> c \<and> c \<le> 0xDFFF then Inl UnicodeEncodeError
      else if c < 0x10000 then
        Inr [0xE0 + c div 4096, 0x80 + c div 64 mod 64, 0x80 + c mod 64]
      else if c < 0x110000 then
        Inr [0xF0 + c div 262144, 0x80 + c div 4096 mod 64, 0x80 + c div 64 mod 64,
             0x80 + c mod 64]
      else Inl UnicodeEncodeError)"

fun encode_utf8 :: "ustr \<Rightarrow> error + byte list" where
  "encode_utf8 [] = Inr []"
| "encode_utf8 (c # cs) =
     then_do (utf8_char c) (\<lambda>bs. then_do (encode_utf8 cs) (\<lambda>rest. Inr (bs @ rest)))"

text \<open>The code points that have a UTF-8 encoding: all but the surrogates.\<close>

definition encodable :: "codepoint \<Rightarrow> bool" where
  "encodable c \<longleftrightarrow> c < 0xD800 \<or> (0xDFFF < c \<and> c < 0x110000)"

record download =
  data :: "byte list"
  file_name :: ustr
  mime :: ustr

definition candidate_cols :: "cell list" where
  "candidate_cols =
     map (\<lambda>s. PyStr (str s))
       [''NOMBRE INTERVENCION'', ''OBJETIVO GENERAL'', ''NOMBRE ACTOR'', ''MUNICIPIO'', ''ODS'',
        ''META ODS'']"

text \<open>Lines 253 to 255: the mask starts as \<open>False\<close> and takes in one column after the other.\<close>

fun search_mask :: "re \<Rightarrow> table \<Rightarrow> ustr \<Rightarrow> bool list \<Rightarrow> cell list \<Rightarrow> error + bool list" where
  "search_mask R df pat acc [] = Inr acc"
| "search_mask R df pat acc (c # cs) =
     then_do (column df c) (\<lambda>vs.
     then_do (str_contains (compile_ignorecase R) (map py_str vs) pat) (\<lambda>hit.
     search_mask R df pat (series_or acc hit) cs))"

text \<open>
  Lines 246 to 264: the frame shown by \<open>st.dataframe\<close> and the file offered by
  \<open>st.download_button\<close>, from the filtered projects, the department and the text typed
  into the search box.
\<close>

definition tab2 :: "re \<Rightarrow> table \<Rightarrow> ustr \<Rightarrow> ustr \<Rightarrow> error + table \<times> download" where
  "tab2 R proj dept text_input =
     (let pat = strip text_input;
          cols = filter (\<lambda>c. c \<in> set (columns proj)) candidate_cols in
      then_do
        (if pat \<noteq> [] \<and> \<not> empty proj \<and> cols \<noteq> []
         then then_do (search_mask R proj pat (replicate (length (rows proj)) False) cols)
                (\<lambda>bs. Inr (select proj bs))
         else Inr proj) (\<lambda>df.
      then_do (encode_utf8 (to_csv df)) (\<lambda>bytes.
      Inr (df, \<lparr>data = bytes, file_name = str ''proyectos_aod_'' @ dept @ str ''.csv'',
                mime = str ''text/csv''\<rparr>))))"

section \<open>Example data\<close>

text \<open>Small inputs on which the properties below are run.\<close>

definition example_sheet :: worksheet where
  "example_sheet =
     \<lparr>tables = [str ''ciclope'' \<mapsto> \<lparr>min_col = 2, min_row = 3, max_col = 3, max_row = 5\<rparr>],
      cell_value = (\<lambda>r c.
        if r = 3 \<and> c = 2 then PyStr (str ''DEPARTAMENTO'')
        else if r = 3 \<and> c = 3 then PyStr (str ''VALOR'')
        else if r = 4 \<and> c = 2 then PyStr (str ''Cauca'')
        else if r = 4 \<and> c = 3 then PyInt 10
        else if r = 5 \<and> c = 3 then PyInt 7
        else PyNone)\<rparr>"

definition example_workbook :: workbook where
  "example_workbook = [\<lparr>tables = Map.empty, cell_value = (\<lambda>r c. PyNone)\<rparr>, example_sheet]"




definition bogota_acento :: ustr where
  "bogota_acento = str ''BOGOT'' @ [0xC1]"

definition example_dataset :: dataset where
  "example_dataset =
     \<lparr>infogeneral =
        \<lparr>columns = [DEPT_COL_INFO, PyStr (str ''Capital'')],
         rows = [[PyStr bogota_acento, PyStr (str ''Bogota'')],
                 [PyStr (str ''Cauca''), PyStr (str ''Popayan'')]]\<rparr>,
      plan = \<lparr>columns = [], rows = []\<rparr>,
      ciclope =
        \<lparr>columns = [DEPARTAMENTO, PyStr (str ''NOMBRE ACTOR''), PyStr (str ''VALOR APORTE (USD)'')],
         rows = [[PyStr bogota_acento, PyStr (str ''A''), PyInt 10],
                 [PyStr (str ''Cauca''), PyStr (str ''B''), PyInt 30],
                 [PyStr (str ''bogota''), PyStr (str ''A''), PyInt 5]]\<rparr>,
      colcol =
        \<lparr>columns = [DESARROLLO, PARTICIPANTES, MAY],
         rows = [[PyStr bogota_acento, PyStr (str ''Cauca, '' @ bogota_acento), PyStr (str ''CAUCA'')],
                 [PyStr (str ''bogota''), PyStr [], PyStr []],
                 [PyStr (str ''Cauca''), PyStr (str ''Cauca, bogota''), PyStr []]]\<rparr>,
      contrapartidas =
        \<lparr>columns = [DEPT_COL_INFO, PyStr (str ''Valor'')],
         rows = [[PyStr bogota_acento, PyInt 1], [PyStr (str ''bogota''), PyInt 2]]\<rparr>,
      proyectos =
        \<lparr>columns = [DEPARTAMENTO, PyStr (str ''NOMBRE ACTOR'')],
         rows = [[PyStr bogota_acento, PyStr (str ''X'')],
                 [PyStr (str ''Cauca''), PyStr (str ''Y'')]]\<rparr>\<rparr>"

definition bogota_views :: views where
  "bogota_views =
     \<lparr>info =
        \<lparr>columns = [DEPT_COL_INFO, PyStr (str ''Capital''), DEPT_NORM],
         rows = [[PyStr bogota_acento, PyStr (str ''Bogota''), PyStr (str ''BOGOTA'')]]\<rparr>,
      cic_dept =
        \<lparr>columns = [DEPARTAMENTO, PyStr (str ''NOMBRE ACTOR''), PyStr (str ''VALOR APORTE (USD)''),
                    DEPT_NORM],
         rows = [[PyStr bogota_acento, PyStr (str ''A''), PyInt 10, PyStr (str ''BOGOTA'')],
                 [PyStr (str ''bogota''), PyStr (str ''A''), PyInt 5, PyStr (str ''BOGOTA'')]]\<rparr>,
      proj_dept =
        \<lparr>columns = [DEPARTAMENTO, PyStr (str ''NOMBRE ACTOR''), DEPT_NORM],
         rows = [[PyStr bogota_acento, PyStr (str ''X''), PyStr (str ''BOGOTA'')]]\<rparr>,
      colcol_dept =
        \<lparr>columns = [DESARROLLO, PARTICIPANTES, MAY],
         rows = [[PyStr (str ''bogota''), PyStr [], PyStr []],
                 [PyStr (str ''Cauca''), PyStr (str ''Cauca, bogota''), PyStr []]]\<rparr>,
      contr_dept =
        \<lparr>columns = [DEPT_COL_INFO, PyStr (str ''Valor'')],
         rows = [[PyStr (str ''bogota''), PyInt 2]]\<rparr>\<rparr>"

definition example_after :: dataset where
  "example_after =
     example_dataset
     \<lparr>infogeneral :=
        \<lparr>columns = [DEPT_COL_INFO, PyStr (str ''Capital''), DEPT_NORM],
         rows = [[PyStr bogota_acento, PyStr (str ''Bogota''), PyStr (str ''BOGOTA'')],
                 [PyStr (str ''Cauca''), PyStr (str ''Popayan''), PyStr (str ''CAUCA'')]]\<rparr>,
      ciclope :=
        \<lparr>columns = [DEPARTAMENTO, PyStr (str ''NOMBRE ACTOR''), PyStr (str ''VALOR APORTE (USD)''),
                    DEPT_NORM],
         rows = [[PyStr bogota_acento, PyStr (str ''A''), PyInt 10, PyStr (str ''BOGOTA'')],
                 [PyStr (str ''Cauca''), PyStr (str ''B''), PyInt 30, PyStr (str ''CAUCA'')],
                 [PyStr (str ''bogota''), PyStr (str ''A''), PyInt 5, PyStr (str ''BOGOTA'')]]\<rparr>,
      proyectos :=
        \<lparr>columns = [DEPARTAMENTO, PyStr (str ''NOMBRE ACTOR''), DEPT_NORM],
         rows = [[PyStr bogota_acento, PyStr (str ''X''), PyStr (str ''BOGOTA'')],
                 [PyStr (str ''Cauca''), PyStr (str ''Y''), PyStr (str ''CAUCA'')]]\<rparr>\<rparr>"

definition bogota_row_colcol :: table where
  "bogota_row_colcol =
     \<lparr>columns = [DESARROLLO, PARTICIPANTES, MAY],
      rows = [[PyStr bogota_acento, PyStr bogota_acento, PyStr bogota_acento]]\<rparr>"

definition bogota_row_contr :: table where
  "bogota_row_contr = \<lparr>columns = [DEPT_COL_INFO], rows = [[PyStr bogota_acento]]\<rparr>"

definition dot_colcol :: table where
  "dot_colcol =
     \<lparr>columns = [DESARROLLO, PARTICIPANTES, MAY],
      rows = [[PyStr (str ''X''), PyStr (str ''DXC''), PyStr []]]\<rparr>"

definition colcol_without_may :: table where
  "colcol_without_may =
     \<lparr>columns = [DESARROLLO, PARTICIPANTES],
      rows = [[PyStr (str ''Cauca''), PyStr (str ''Cauca'')]]\<rparr>"

section \<open>Properties of norm_text\<close>

lemma is_space_32: "is_space 32"
  by (simp add: is_space_def)

lemma plain_space_iff: "plain c \<Longrightarrow> is_space c \<longleftrightarrow> c = 32"
  by (auto simp: plain_def is_space_def)

lemma kept_sub_punct: "list_all kept (sub_punct s)"
  by (induction s) (auto simp: sub_punct_def kept_def is_space_def)

lemma strip_infix: "\<exists>a b. s = a @ strip s @ b"
proof -
  let ?t = "dropWhile is_space s"
  have 1: "s = takeWhile is_space s @ ?t" by simp
  have "rev ?t = takeWhile is_space (rev ?t) @ dropWhile is_space (rev ?t)" by simp
  then have "?t = rev (dropWhile is_space (rev ?t)) @ rev (takeWhile is_space (rev ?t))"
    by (metis rev_append rev_rev_ident)
  then have "?t = strip s @ rev (takeWhile is_space (rev ?t))"
    by (simp add: strip_def)
  with 1 show ?thesis by metis
qed

lemma set_strip: "set (strip s) \<subseteq> set s"
  using strip_infix [of s] by (metis Un_upper1 Un_upper2 set_append subset_trans)

lemma strip_no_leading: "strip s = c # t \<Longrightarrow> \<not> is_space c"
proof -
  assume a: "strip s = c # t"
  let ?t = "dropWhile is_space s"
  have "rev (dropWhile is_space (rev ?t)) = c # t" using a by (simp add: strip_def)
  then have "dropWhile is_space (rev ?t) = rev t @ [c]"
    by (metis rev.simps(2) rev_rev_ident)
  then have "c \<in> set (dropWhile is_space (rev ?t))" by simp
  then have "\<exists>p. ?t = c # p \<or> True" by simp
  have "rev ?t = takeWhile is_space (rev ?t) @ rev t @ [c]"
    using \<open>dropWhile is_space (rev ?t) = rev t @ [c]\<close> by (metis takeWhile_dropWhile_id)
  then have "?t = c # t @ rev (takeWhile is_space (rev ?t))"
    by (metis append_Cons append_Nil rev.simps(2) rev_append rev_rev_ident append_assoc)
  then show ?thesis by (metis hd_dropWhile list.sel(1) list.distinct(1))
qed

lemma strip_no_trailing: "strip s = t @ [c] \<Longrightarrow> \<not> is_space c"
proof -
  assume a: "strip s = t @ [c]"
  then have "dropWhile is_space (rev (dropWhile is_space s)) = c # rev t"
    by (metis strip_def rev.simps(2) rev_rev_ident rev_append append_Nil append_Cons rev_singleton_conv)
  then show ?thesis by (metis hd_dropWhile list.sel(1) list.distinct(1))
qed

lemma no_edge_space_strip: "no_edge_space (strip s)"
  unfolding no_edge_space_def
  using strip_no_leading strip_no_trailing is_space_32 by metis

lemma no_double_space_infix: "no_double_space (a @ s @ b) \<Longrightarrow> no_double_space s"
  unfolding no_double_space_def
proof (intro allI notI)
  fix a' b' assume h: "\<forall>a' b'. a @ s @ b \<noteq> a' @ [32, 32] @ b'" and e: "s = a' @ [32, 32] @ b'"
  have "a @ s @ b = (a @ a') @ [32, 32] @ (b' @ b)" using e by simp
  with h show False by blast
qed

lemma no_double_space_strip: "no_double_space s \<Longrightarrow> no_double_space (strip s)"
  using strip_infix [of s] no_double_space_infix by metis

lemma nds_Nil: "no_double_space []"
  by (simp add: no_double_space_def)

lemma nds_single: "no_double_space [x]"
  by (auto simp: no_double_space_def append_eq_Cons_conv)

lemma nds_Cons: "no_double_space (x # y # zs) \<longleftrightarrow> \<not> (x = 32 \<and> y = 32) \<and> no_double_space (y # zs)"
proof
  assume h: "no_double_space (x # y # zs)"
  have "\<not> (x = 32 \<and> y = 32)"
  proof
    assume "x = 32 \<and> y = 32"
    then have "x # y # zs = [] @ [32, 32] @ zs" by simp
    with h show False unfolding no_double_space_def by blast
  qed
  moreover have "no_double_space (y # zs)"
    using no_double_space_infix [of "[x]" "y # zs" "[]"] h by simp
  ultimately show "\<not> (x = 32 \<and> y = 32) \<and> no_double_space (y # zs)" by simp
next
  assume h: "\<not> (x = 32 \<and> y = 32) \<and> no_double_space (y # zs)"
  show "no_double_space (x # y # zs)"
    unfolding no_double_space_def
  proof (intro allI notI)
    fix a b assume e: "x # y # zs = a @ [32, 32] @ b"
    show False
    proof (cases a)
      case Nil
      with e h show False by simp
    next
      case (Cons a1 a')
      with e have "y # zs = a' @ [32, 32] @ b" by simp
      with h show False unfolding no_double_space_def by blast
    qed
  qed
qed

lemma sub_spaces_head:
  "\<not> is_space c \<Longrightarrow> sub_spaces (c # cs) = c # sub_spaces cs"
  by simp

lemma sub_spaces_dropWhile_head:
  "sub_spaces (dropWhile is_space cs) = [] \<or> hd (sub_spaces (dropWhile is_space cs)) \<noteq> 32"
proof (cases "dropWhile is_space cs")
  case Nil
  show ?thesis unfolding Nil by simp
next
  case (Cons d ds)
  then have "\<not> is_space d" by (metis hd_dropWhile list.sel(1) list.distinct(1))
  then show ?thesis using Cons is_space_32 by auto
qed

lemma nds_sub_spaces: "no_double_space (sub_spaces s)"
proof (induction s rule: sub_spaces.induct)
  case 1
  then show ?case by (simp add: nds_Nil)
next
  case (2 c cs)
  show ?case
  proof (cases "is_space c")
    case True
    let ?r = "sub_spaces (dropWhile is_space cs)"
    have ih: "no_double_space ?r" using 2 True by simp
    show ?thesis
    proof (cases ?r)
      case Nil
      then show ?thesis using True by (simp add: nds_single)
    next
      case (Cons d ds)
      then have "d \<noteq> 32" using sub_spaces_dropWhile_head [of cs] by auto
      then show ?thesis using True Cons ih by (simp add: nds_Cons)
    qed
  next
    case False
    let ?r = "sub_spaces cs"
    have ih: "no_double_space ?r" using 2 False by simp
    have "c \<noteq> 32" using False is_space_32 by auto
    then show ?thesis using False ih
      by (cases ?r) (simp_all add: nds_single nds_Cons)
  qed
qed

lemma plain_sub_spaces: "list_all kept s \<Longrightarrow> list_all plain (sub_spaces s)"
proof (induction s rule: sub_spaces.induct)
  case 1
  then show ?case by simp
next
  case (2 c cs)
  have "list_all kept (dropWhile is_space cs)"
    using 2(3) by (metis list.pred_inject(2) list_all_append takeWhile_dropWhile_id)
  note dk = this
  have ck: "kept c" and csk: "list_all kept cs" using 2(3) by simp_all
  show ?case
  proof (cases "is_space c")
    case True
    then show ?thesis using 2(1) dk by (simp add: plain_def)
  next
    case False
    then have "plain c" using ck by (auto simp: plain_def kept_def)
    then show ?thesis using False 2(2) csk by simp
  qed
qed

lemma list_all_strip: "list_all P s \<Longrightarrow> list_all P (strip s)"
  using set_strip [of s] by (auto simp: list_all_iff)

lemma norm_text_shape:
  "list_all plain (norm_text U x) \<and> no_edge_space (norm_text U x) \<and> no_double_space (norm_text U x)"
proof (cases "x = PyNone")
  case True
  then show ?thesis
    by (simp add: norm_text_def no_edge_space_def nds_Nil)
next
  case False
  define s where "s = sub_spaces (sub_punct (quita_tildes U (upper U (strip (py_str x)))))"
  have e: "norm_text U x = strip s"
    using False by (cases x) (simp_all add: norm_text_def s_def)
  have "list_all plain s" unfolding s_def by (rule plain_sub_spaces) (rule kept_sub_punct)
  moreover have "no_double_space s" unfolding s_def by (rule nds_sub_spaces)
  ultimately show ?thesis
    unfolding e by (simp add: list_all_strip no_edge_space_strip no_double_space_strip)
qed


lemma strip_id:
  assumes "list_all plain s" "no_edge_space s"
  shows "strip s = s"
proof -
  have a: "dropWhile is_space s = s"
  proof (cases s)
    case Nil then show ?thesis by simp
  next
    case (Cons c t)
    then have "c \<noteq> 32" using assms(2) by (simp add: no_edge_space_def)
    moreover have "plain c" using assms(1) Cons by simp
    ultimately have "\<not> is_space c" by (simp add: plain_space_iff)
    then show ?thesis using Cons by simp
  qed
  have b: "dropWhile is_space (rev s) = rev s"
  proof (cases s rule: rev_cases)
    case Nil then show ?thesis by simp
  next
    case (snoc t c)
    then have "c \<noteq> 32" using assms(2) by (simp add: no_edge_space_def)
    moreover have "plain c" using assms(1) snoc by simp
    ultimately have "\<not> is_space c" by (simp add: plain_space_iff)
    then show ?thesis using snoc by simp
  qed
  show ?thesis by (simp add: strip_def a b)
qed

lemma upper_id: "fixes_plain U \<Longrightarrow> list_all plain s \<Longrightarrow> upper U s = s"
  by (induction s) (simp_all add: upper_def fixes_plain_def)

lemma quita_tildes_id: "fixes_plain U \<Longrightarrow> list_all plain s \<Longrightarrow> quita_tildes U s = s"
proof -
  assume f: "fixes_plain U" and p: "list_all plain s"
  then have "normalize_NFD U s = s" by (simp add: fixes_plain_def)
  moreover have "filter (\<lambda>c. \<not> category_Mn U c) s = s"
    using f p by (induction s) (simp_all add: fixes_plain_def)
  ultimately show ?thesis by (simp add: quita_tildes_def)
qed

lemma sub_punct_id: "list_all plain s \<Longrightarrow> sub_punct s = s"
  by (induction s) (auto simp: sub_punct_def plain_def kept_def is_space_def)

lemma sub_spaces_id: "list_all plain s \<Longrightarrow> no_double_space s \<Longrightarrow> sub_spaces s = s"
proof (induction s)
  case Nil
  then show ?case by simp
next
  case (Cons c cs)
  have pc: "plain c" and pcs: "list_all plain cs" using Cons.prems(1) by simp_all
  have ncs: "no_double_space cs"
    using no_double_space_infix [of "[c]" cs "[]"] Cons.prems(2) by simp
  have ih: "sub_spaces cs = cs" using Cons.IH pcs ncs by simp
  show ?case
  proof (cases "is_space c")
    case False
    then show ?thesis using ih by simp
  next
    case True
    then have c: "c = 32" using pc by (simp add: plain_space_iff)
    have "dropWhile is_space cs = cs"
    proof (cases cs)
      case Nil then show ?thesis by simp
    next
      case (Cons d ds)
      then have "d \<noteq> 32" using Cons.prems(2) c by (simp add: nds_Cons)
      moreover have "plain d" using pcs Cons by simp
      ultimately have "\<not> is_space d" by (simp add: plain_space_iff)
      then show ?thesis using Cons by simp
    qed
    then show ?thesis using True c ih by simp
  qed
qed

lemma norm_text_fixpoint:
  assumes "fixes_plain U" "list_all plain s" "no_edge_space s" "no_double_space s"
  shows "norm_text U (PyStr s) = s"
  using assms
  by (simp add: norm_text_def strip_id upper_id quita_tildes_id sub_punct_id sub_spaces_id)

lemma latin1_decompose_plain: "plain c \<Longrightarrow> latin1_decompose c = [c]"
  by (auto simp: plain_def latin1_decompose_def latin1_decompositions_def)

lemma fixes_plain_latin1: "fixes_plain latin1"
proof -
  have "list_all plain s \<Longrightarrow> concat (map latin1_decompose s) = s" for s
    by (induction s) (simp_all add: latin1_decompose_plain)
  moreover have "plain c \<Longrightarrow> latin1_upper c = [c] \<and> \<not> (0x300 \<le> c \<and> c \<le> 0x36F)" for c
    by (auto simp: plain_def latin1_upper_def)
  ultimately show ?thesis by (simp add: fixes_plain_def latin1_def)
qed


text \<open>
  Claim C4. For every input, \<open>norm_text\<close> gives a text made of the capital letters A to Z,
  the digits and the space only, with no space at either end and no two spaces in a row.
  \<open>None\<close> gives the empty text, and "Bogota, D.C.", written with the accented a (U+00E1),
  gives "BOGOTA D C".
\<close>

theorem norm_text_normal_form:
  "list_all plain (norm_text U x) \<and> no_edge_space (norm_text U x) \<and>
   no_double_space (norm_text U x) \<and> norm_text U PyNone = [] \<and>
   norm_text latin1 (PyStr (str ''Bogot'' @ [0xE1] @ str '', D.C.'')) = str ''BOGOTA D C''"
proof -
  have "norm_text U PyNone = []"
    by (simp add: norm_text_def)
  moreover have
    "norm_text latin1 (PyStr (str ''Bogot'' @ [0xE1] @ str '', D.C.'')) = str ''BOGOTA D C''"
    by (simp add: norm_text_def strip_def is_space_def upper_def latin1_def latin1_upper_def
        quita_tildes_def latin1_decompose_def latin1_decompositions_def sub_punct_def kept_def
        str_def)
  ultimately show ?thesis
    using norm_text_shape [of U x] by simp
qed

theorem norm_text_normal_form_witness:
  "list_all plain (norm_text latin1 (PyStr (str ''  m'' @ [0xFA] @ str ''ltiples   espacios  ''))) \<and>
   norm_text latin1 (PyStr (str ''  m'' @ [0xFA] @ str ''ltiples   espacios  ''))
     = str ''MULTIPLES ESPACIOS''"
proof -
  have "norm_text latin1 (PyStr (str ''  m'' @ [0xFA] @ str ''ltiples   espacios  ''))
     = str ''MULTIPLES ESPACIOS''"
    by (simp add: norm_text_def strip_def is_space_def upper_def latin1_def latin1_upper_def
        quita_tildes_def latin1_decompose_def latin1_decompositions_def sub_punct_def kept_def
        str_def)
  then show ?thesis
    using norm_text_normal_form
      [of latin1 "PyStr (str ''  m'' @ [0xFA] @ str ''ltiples   espacios  '')"]
    by simp
qed

text \<open>
  Claim C10. \<open>norm_text\<close> is a function of its argument alone, and normalizing a normalized
  key changes nothing: \<open>norm_text(norm_text(x)) = norm_text(x)\<close> for every input, whenever
  upper-casing and canonical decomposition leave A to Z, the digits and the space alone and
  none of them is a nonspacing mark, as is the case in Unicode.
\<close>

theorem norm_text_idempotent:
  "fixes_plain U \<Longrightarrow> norm_text U (PyStr (norm_text U x)) = norm_text U x"
  using norm_text_shape [of U x] by (simp add: norm_text_fixpoint)

theorem norm_text_idempotent_witness:
  "fixes_plain latin1 \<and>
   norm_text latin1 (PyStr (str ''Bogot'' @ [0xE1] @ str '', D.C.'')) = str ''BOGOTA D C'' \<and>
   norm_text latin1 (PyStr (str ''BOGOTA D C'')) = str ''BOGOTA D C''"
proof -
  have e: "norm_text latin1 (PyStr (str ''Bogot'' @ [0xE1] @ str '', D.C.'')) = str ''BOGOTA D C''"
    by (simp add: norm_text_def strip_def is_space_def upper_def latin1_def latin1_upper_def
        quita_tildes_def latin1_decompose_def latin1_decompositions_def sub_punct_def kept_def
        str_def)
  show ?thesis
    using norm_text_idempotent
      [OF fixes_plain_latin1, of "PyStr (str ''Bogot'' @ [0xE1] @ str '', D.C.'')"]
    by (simp only: e fixes_plain_latin1 simp_thms)
qed

section \<open>Properties of read_named_table\<close>

lemma read_absent:
  "list_all (\<lambda>ws. tables ws name = None) wb \<Longrightarrow>
   read_named_table wb name = Inl (KeyError (no_encontre name))"
  by (induction wb) simp_all

lemma iter_rows_Cons:
  "min_row b \<le> max_row b \<Longrightarrow>
   iter_rows ws b =
     map (cell_value ws (min_row b)) [min_col b ..< Suc (max_col b)] #
     map (\<lambda>r. map (cell_value ws r) [min_col b ..< Suc (max_col b)])
       [Suc (min_row b) ..< Suc (max_row b)]"
  by (simp add: iter_rows_def upt_conv_Cons del: upt_Suc)

lemma read_present:
  "list_all (\<lambda>w. tables w name = None) pre \<Longrightarrow> tables ws name = Some b \<Longrightarrow>
   min_row b \<le> max_row b \<Longrightarrow>
   read_named_table (pre @ ws # post) name =
     Inr \<lparr>columns = map (cell_value ws (min_row b)) [min_col b ..< Suc (max_col b)],
          rows = map (\<lambda>r. map (cell_value ws r) [min_col b ..< Suc (max_col b)])
                   [Suc (min_row b) ..< Suc (max_row b)]\<rparr>"
  by (induction pre) (simp_all add: iter_rows_Cons del: upt_Suc)

lemma read_defined_not_KeyError:
  "\<not> list_all (\<lambda>ws. tables ws name = None) wb \<Longrightarrow> read_named_table wb name \<noteq> Inl (KeyError m)"
  by (induction wb) (auto split: option.splits list.splits)

text \<open>
  Claim C8. \<open>read_named_table\<close> raises its \<open>KeyError\<close> ("No encontre la tabla")
  exactly when no sheet of the workbook has a table of the requested name. When a sheet has
  one, the call does not fail: from the first such sheet it returns the first row of the
  table's rectangle as the column labels and the rows after it as the records.
\<close>

theorem read_named_table_spec:
  "(read_named_table wb name = Inl (KeyError (no_encontre name))
      \<longleftrightarrow> list_all (\<lambda>ws. tables ws name = None) wb) \<and>
   (list_all (\<lambda>w. tables w name = None) pre \<and> tables ws name = Some b \<and>
      min_row b \<le> max_row b \<longrightarrow>
    read_named_table (pre @ ws # post) name =
      Inr \<lparr>columns = map (cell_value ws (min_row b)) [min_col b ..< Suc (max_col b)],
           rows = map (\<lambda>r. map (cell_value ws r) [min_col b ..< Suc (max_col b)])
                    [Suc (min_row b) ..< Suc (max_row b)]\<rparr>)"
  using read_absent [of name wb] read_defined_not_KeyError [of name wb "no_encontre name"]
    read_present [of name pre ws b post]
  by blast

theorem read_named_table_spec_witness:
  "read_named_table example_workbook (str ''ciclope'') =
     Inr \<lparr>columns = [PyStr (str ''DEPARTAMENTO''), PyStr (str ''VALOR'')],
          rows = [[PyStr (str ''Cauca''), PyInt 10], [PyNone, PyInt 7]]\<rparr> \<and>
   read_named_table example_workbook (str ''plan'') = Inl (KeyError (no_encontre (str ''plan'')))"
proof -
  have a: "list_all (\<lambda>w. tables w (str ''ciclope'') = None) [\<lparr>tables = Map.empty, cell_value = (\<lambda>r c. PyNone)\<rparr>]"
    by simp
  have b: "tables example_sheet (str ''ciclope'') = Some \<lparr>min_col = 2, min_row = 3, max_col = 3, max_row = 5\<rparr>"
    by (simp add: example_sheet_def)
  have c: "list_all (\<lambda>ws. tables ws (str ''plan'') = None) example_workbook"
    by (simp add: example_workbook_def example_sheet_def str_def)
  have d: "[2 ..< Suc 3] = [2, 3]" "[Suc 3 ..< Suc 5] = [4, 5]"
    by (simp_all add: upt_conv_Cons)
  from read_named_table_spec [where wb = example_workbook and name = "str ''plan''"] c
  have 1: "read_named_table example_workbook (str ''plan'') = Inl (KeyError (no_encontre (str ''plan'')))"
    by blast
  from read_named_table_spec
    [where pre = "[\<lparr>tables = Map.empty, cell_value = (\<lambda>r c. PyNone)\<rparr>]"
       and name = "str ''ciclope''" and ws = example_sheet
       and b = "\<lparr>min_col = 2, min_row = 3, max_col = 3, max_row = 5\<rparr>" and post = "[]"] a b
  have 2: "read_named_table example_workbook (str ''ciclope'') =
      Inr \<lparr>columns = map (cell_value example_sheet 3) [2 ..< Suc 3],
           rows = map (\<lambda>r. map (cell_value example_sheet r) [2 ..< Suc 3]) [Suc 3 ..< Suc 5]\<rparr>"
    by (simp add: example_workbook_def)
  show ?thesis
    using 1 2 unfolding d by (simp add: example_sheet_def)
qed

section \<open>Properties of top_by_sum\<close>





















section \<open>Properties of the department filter\<close>

lemma then_do_Inr_iff: "then_do m f = Inr y \<longleftrightarrow> (\<exists>x. m = Inr x \<and> f x = Inr y)"
  by (cases m) (simp_all add: then_do_def)

lemma then_do_Inr [simp]: "then_do (Inr x) f = f x"
  by (simp add: then_do_def)

lemma then_do_Inl [simp]: "then_do (Inl e) f = Inl e"
  by (simp add: then_do_def)

lemma index_of_Some: "index_of c xs = Some i \<Longrightarrow> i < length xs \<and> xs ! i = c"
  by (induction xs arbitrary: i) (auto split: if_splits)

lemma index_of_None_iff: "index_of c xs = None \<longleftrightarrow> c \<notin> set xs"
  by (induction xs) auto

lemma index_of_append_new: "c \<notin> set xs \<Longrightarrow> index_of c (xs @ [c]) = Some (length xs)"
  by (induction xs) auto

lemma index_of_append_old: "index_of c xs = Some i \<Longrightarrow> index_of c (xs @ ys) = Some i"
  by (induction xs arbitrary: i) (auto split: if_splits)

lemma index_of_inj: "index_of c xs = Some i \<Longrightarrow> index_of c' xs = Some i \<Longrightarrow> c = c'"
  using index_of_Some by metis

lemma column_eq: "c \<in> set (columns t) \<Longrightarrow> column t c = Inr (map (cell_of t c) (rows t))"
  by (auto simp: column_def cell_of_def index_of_None_iff split: option.splits)

lemma column_absent: "c \<notin> set (columns t) \<Longrightarrow> column t c = Inl (KeyError (py_str c))"
  using index_of_None_iff [of c "columns t"] by (simp add: column_def)

lemma column_Inr_iff: "column t c = Inr vs \<longleftrightarrow> c \<in> set (columns t) \<and> vs = map (cell_of t c) (rows t)"
  by (cases "c \<in> set (columns t)") (auto simp: column_eq column_absent)

lemma map2_same: "map2 f xs (map g xs) = map (\<lambda>x. f x (g x)) xs"
  by (induction xs) simp_all

lemma select_map: "select t (map f (rows t)) = t\<lparr>rows := filter f (rows t)\<rparr>"
proof -
  have "map fst (filter snd (zip xs (map f xs))) = filter f xs" for xs :: "cell list list"
    by (induction xs) simp_all
  then show ?thesis by (simp add: select_def)
qed

lemma where_eq_present:
  "c \<in> set (columns t) \<Longrightarrow>
   where_eq t c v = Inr (t\<lparr>rows := filter (\<lambda>r. cell_of t c r = PyStr v) (rows t)\<rparr>)"
  using select_map [of t "\<lambda>r. cell_of t c r = PyStr v"]
  by (simp add: where_eq_def column_eq comp_def)

lemma where_eq_absent: "c \<notin> set (columns t) \<Longrightarrow> where_eq t c v = Inl (KeyError (py_str c))"
  by (simp add: where_eq_def column_absent)

text \<open>The frame after \<open>df["DEPT_NORM"] = df[c].map(norm_text)\<close>, record by record.\<close>

lemma assign_dept_norm_present:
  "c \<in> set (columns t) \<Longrightarrow>
   assign_dept_norm U t c =
     Inr \<lparr>columns = (if DEPT_NORM \<in> set (columns t) then columns t else columns t @ [DEPT_NORM]),
          rows = map (\<lambda>r. with_cell t DEPT_NORM (PyStr (norm_text U (cell_of t c r))) r) (rows t)\<rparr>"
  using map2_same [of "\<lambda>r v. with_cell t DEPT_NORM v r" "rows t"
      "\<lambda>r. PyStr (norm_text U (cell_of t c r))"]
  by (simp add: assign_dept_norm_def column_eq set_column_def comp_def)

lemma assign_dept_norm_absent:
  "c \<notin> set (columns t) \<Longrightarrow> assign_dept_norm U t c = Inl (KeyError (py_str c))"
  by (simp add: assign_dept_norm_def column_absent)

lemma cell_of_with_cell_same:
  assumes "length r = length (columns t)"
  shows "cell_of \<lparr>columns = (if c \<in> set (columns t) then columns t else columns t @ [c]),
                  rows = rs\<rparr> c (with_cell t c v r) = v"
proof (cases "index_of c (columns t)")
  case None
  then have n: "c \<notin> set (columns t)" by (simp add: index_of_None_iff)
  have "(r @ [v]) ! length (columns t) = v"
    using assms nth_append_length [of r v] by simp
  then show ?thesis using None n
    by (simp add: cell_of_def with_cell_def index_of_append_new)
next
  case (Some i)
  then have "c \<in> set (columns t)" using index_of_None_iff [of c "columns t"] by auto
  moreover have "i < length r" using index_of_Some [OF Some] assms by simp
  ultimately show ?thesis using Some by (simp add: cell_of_def with_cell_def)
qed

lemma cell_of_with_cell_other:
  assumes "length r = length (columns t)" "c' \<noteq> c" "c' \<in> set (columns t)"
  shows "cell_of \<lparr>columns = (if c \<in> set (columns t) then columns t else columns t @ [c]),
                  rows = rs\<rparr> c' (with_cell t c v r) = cell_of t c' r"
proof -
  obtain j where j: "index_of c' (columns t) = Some j"
    using assms(3) index_of_None_iff [of c' "columns t"] by auto
  have jl: "j < length r" using index_of_Some [OF j] assms(1) by simp
  show ?thesis
  proof (cases "index_of c (columns t)")
    case None
    then have n: "c \<notin> set (columns t)" by (simp add: index_of_None_iff)
    then show ?thesis using None j jl
      by (simp add: cell_of_def with_cell_def index_of_append_old nth_append)
  next
    case (Some i)
    then have "c \<in> set (columns t)" using index_of_None_iff [of c "columns t"] by auto
    moreover have "i \<noteq> j" using index_of_inj [OF Some] j assms(2) by auto
    ultimately show ?thesis using Some j by (simp add: cell_of_def with_cell_def)
  qed
qed

text \<open>Lines 110 and 113 (or 111 and 114) on one frame.\<close>

lemma normalized_subset:
  assumes wf: "wf_table t" and c: "c \<in> set (columns t)"
    and a: "assign_dept_norm U t c = Inr t'"
  shows "where_eq t' DEPT_NORM k =
    Inr (t'\<lparr>rows :=
      map (\<lambda>r. with_cell t DEPT_NORM (PyStr (norm_text U (cell_of t c r))) r)
        (filter (\<lambda>r. norm_text U (cell_of t c r) = k) (rows t))\<rparr>)"
proof -
  let ?cols = "if DEPT_NORM \<in> set (columns t) then columns t else columns t @ [DEPT_NORM]"
  let ?F = "\<lambda>r. with_cell t DEPT_NORM (PyStr (norm_text U (cell_of t c r))) r"
  have t': "t' = \<lparr>columns = ?cols, rows = map ?F (rows t)\<rparr>"
    using a assign_dept_norm_present [OF c, of U] by simp
  have len: "\<And>r. r \<in> set (rows t) \<Longrightarrow> length r = length (columns t)"
    using wf by (simp add: wf_table_def list_all_iff)
  have key: "\<And>r. r \<in> set (rows t) \<Longrightarrow> cell_of t' DEPT_NORM (?F r) = PyStr (norm_text U (cell_of t c r))"
    unfolding t' using cell_of_with_cell_same [OF len] by simp
  have "filter (\<lambda>r'. cell_of t' DEPT_NORM r' = PyStr k) (map ?F (rows t))
      = map ?F (filter (\<lambda>r. cell_of t' DEPT_NORM (?F r) = PyStr k) (rows t))"
    by (simp add: filter_map comp_def)
  also have "filter (\<lambda>r. cell_of t' DEPT_NORM (?F r) = PyStr k) (rows t)
      = filter (\<lambda>r. norm_text U (cell_of t c r) = k) (rows t)"
    by (rule filter_cong) (simp_all add: key)
  finally have f: "filter (\<lambda>r'. cell_of t' DEPT_NORM r' = PyStr k) (rows t')
      = map ?F (filter (\<lambda>r. norm_text U (cell_of t c r) = k) (rows t))"
    by (simp add: t')
  have "DEPT_NORM \<in> set (columns t')" by (simp add: t')
  then show ?thesis using where_eq_present [of DEPT_NORM t' k] f by simp
qed

lemmas norm_text_eval =
  norm_text_def strip_def is_space_def upper_def latin1_def latin1_upper_def
  quita_tildes_def latin1_decompose_def latin1_decompositions_def sub_punct_def kept_def

lemma norm_bogota: "norm_text latin1 (PyStr (str ''bogota'')) = str ''BOGOTA''"
  by (simp add: norm_text_eval str_def)

lemma norm_bogota_acento: "norm_text latin1 (PyStr bogota_acento) = str ''BOGOTA''"
  by (simp add: norm_text_eval str_def bogota_acento_def)

lemma norm_cauca: "norm_text latin1 (PyStr (str ''Cauca'')) = str ''CAUCA''"
  by (simp add: norm_text_eval str_def)


lemmas frame_eval =
  assign_dept_norm_def column_def set_column_def with_cell_def where_eq_def select_def
  DEPT_NORM_def DEPARTAMENTO_def DEPT_COL_INFO_def DESARROLLO_def PARTICIPANTES_def MAY_def
  str_def bogota_acento_def

lemma run_infogeneral:
  "assign_dept_norm latin1 (infogeneral example_dataset) DEPT_COL_INFO = Inr (infogeneral example_after)"
  by (simp add: example_dataset_def example_after_def frame_eval norm_text_eval)

lemma run_ciclope:
  "assign_dept_norm latin1 (ciclope example_dataset) DEPARTAMENTO = Inr (ciclope example_after)"
  by (simp add: example_dataset_def example_after_def frame_eval norm_text_eval)

lemma run_proyectos:
  "assign_dept_norm latin1 (proyectos example_dataset) DEPARTAMENTO = Inr (proyectos example_after)"
  by (simp add: example_dataset_def example_after_def frame_eval norm_text_eval)

lemma run_info:
  "where_eq (infogeneral example_after) DEPT_NORM (str ''BOGOTA'') = Inr (info bogota_views)"
  by (simp add: example_dataset_def example_after_def bogota_views_def frame_eval)

lemma run_info_head:
  "(info bogota_views)\<lparr>rows := head 1 (rows (info bogota_views))\<rparr> = info bogota_views"
  by (simp add: bogota_views_def head_def)

lemma run_cic_dept:
  "where_eq (ciclope example_after) DEPT_NORM (str ''BOGOTA'') = Inr (cic_dept bogota_views)"
  by (simp add: example_dataset_def example_after_def bogota_views_def frame_eval)

lemma run_proj_dept:
  "where_eq (proyectos example_after) DEPT_NORM (str ''BOGOTA'') = Inr (proj_dept bogota_views)"
  by (simp add: example_dataset_def example_after_def bogota_views_def frame_eval)

lemma run_colcol_dept:
  "colcol_filter dots (colcol example_dataset) (str ''bogota'') = Inr (colcol_dept bogota_views)"
  by (simp add: example_dataset_def bogota_views_def frame_eval colcol_filter_def get_def
      str_contains_def series_or_def dots_def re_special_def)

lemma run_contr_dept:
  "contr_filter (contrapartidas example_dataset) (str ''bogota'') = Inr (contr_dept bogota_views)"
  by (simp add: example_dataset_def bogota_views_def frame_eval contr_filter_def)

lemma example_run:
  "filter_by_department latin1 dots example_dataset (str ''bogota'') =
     Inr (example_after, bogota_views)"
proof -
  have d: "example_dataset\<lparr>infogeneral := infogeneral example_after,
      ciclope := ciclope example_after, proyectos := proyectos example_after\<rparr> = example_after"
    by (simp add: example_after_def)
  have v: "\<lparr>info = info bogota_views, cic_dept = cic_dept bogota_views,
      proj_dept = proj_dept bogota_views, colcol_dept = colcol_dept bogota_views,
      contr_dept = contr_dept bogota_views\<rparr> = bogota_views"
    by simp
  show ?thesis
    unfolding filter_by_department_def Let_def norm_bogota run_infogeneral run_ciclope
      run_proyectos then_do_Inr run_info run_cic_dept run_proj_dept run_colcol_dept
      run_contr_dept run_info_head d v
    by (rule refl)
qed

lemma get_present: "c \<in> set (columns df) \<Longrightarrow> get df c d = Series (map (cell_of df c) (rows df))"
  by (simp add: get_def column_eq)

lemma get_absent: "c \<notin> set (columns df) \<Longrightarrow> get df c d = Default d"
  by (simp add: get_def column_absent)

lemma series_or_map: "series_or (map f xs) (map g xs) = map (\<lambda>x. f x \<or> g x) xs"
  by (induction xs) (simp_all add: series_or_def)

lemma colcol_filter_present:
  assumes "DESARROLLO \<in> set (columns df)" "PARTICIPANTES \<in> set (columns df)"
    "MAY \<in> set (columns df)" "compile R dept = Some found"
  shows "colcol_filter R df dept =
    Inr (df\<lparr>rows := filter (\<lambda>r. py_str (cell_of df DESARROLLO r) = dept \<or>
                found (py_str (cell_of df PARTICIPANTES r)) \<or>
                found (py_str (cell_of df MAY r))) (rows df)\<rparr>)"
proof -
  let ?P = "\<lambda>r. py_str (cell_of df DESARROLLO r) = dept \<or>
                found (py_str (cell_of df PARTICIPANTES r)) \<or>
                found (py_str (cell_of df MAY r))"
  have "series_or (series_or (map (\<lambda>r. py_str (cell_of df DESARROLLO r) = dept) (rows df))
            (map (\<lambda>r. found (py_str (cell_of df PARTICIPANTES r))) (rows df)))
          (map (\<lambda>r. found (py_str (cell_of df MAY r))) (rows df)) = map ?P (rows df)"
    by (simp add: series_or_map disj_assoc)
  then show ?thesis
    using assms select_map [of df ?P]
    by (simp add: colcol_filter_def get_present str_contains_def comp_def)
qed

lemma colcol_filter_Inr:
  assumes "colcol_filter R df dept = Inr t"
  shows "DESARROLLO \<in> set (columns df) \<and> PARTICIPANTES \<in> set (columns df) \<and>
    MAY \<in> set (columns df) \<and> (\<exists>found. compile R dept = Some found)"
proof -
  have 1: "DESARROLLO \<in> set (columns df)"
    using assms by (cases "DESARROLLO \<in> set (columns df)") (simp_all add: colcol_filter_def get_absent)
  have 2: "PARTICIPANTES \<in> set (columns df)"
    using assms 1
    by (cases "PARTICIPANTES \<in> set (columns df)") (simp_all add: colcol_filter_def get_absent get_present)
  have 3: "\<exists>found. compile R dept = Some found"
    using assms 1 2
    by (cases "compile R dept") (simp_all add: colcol_filter_def get_present str_contains_def)
  have 4: "MAY \<in> set (columns df)"
    using assms 1 2 3
    by (cases "MAY \<in> set (columns df)")
      (auto simp: colcol_filter_def get_absent get_present str_contains_def)
  show ?thesis using 1 2 3 4 by simp
qed

lemma colcol_filter_missing:
  assumes "DESARROLLO \<notin> set (columns df) \<or> PARTICIPANTES \<notin> set (columns df) \<or>
    MAY \<notin> set (columns df)" "compile R dept = Some found"
  shows "colcol_filter R df dept = Inl AttributeError"
proof (cases "DESARROLLO \<in> set (columns df)")
  case False
  then show ?thesis by (simp add: colcol_filter_def get_absent)
next
  case d: True
  show ?thesis
  proof (cases "PARTICIPANTES \<in> set (columns df)")
    case False
    then show ?thesis using d by (simp add: colcol_filter_def get_absent get_present)
  next
    case True
    then have "MAY \<notin> set (columns df)" using assms(1) d by simp
    then show ?thesis using d True assms(2)
      by (simp add: colcol_filter_def get_absent get_present str_contains_def)
  qed
qed

lemma contr_filter_eq:
  "contr_filter df dept =
     Inr (df\<lparr>rows := (if DEPT_COL_INFO \<in> set (columns df)
                      then filter (\<lambda>r. cell_of df DEPT_COL_INFO r = PyStr dept) (rows df)
                      else [])\<rparr>)"
  by (simp add: contr_filter_def where_eq_present)

lemma match_here_literal:
  "\<not> list_ex (\<lambda>c. c = 46) p \<Longrightarrow> match_here p s = prefix p s"
  by (induction p s rule: match_here.induct) auto

lemma search_literal:
  assumes "\<not> list_ex (\<lambda>c. c = 46) p"
  shows "search p s = sublist p s"
proof (induction s)
  case Nil
  then show ?case using match_here_literal [OF assms, of "[]"] by simp
next
  case (Cons c cs)
  then show ?case
    using match_here_literal [OF assms, of "c # cs"] by (simp add: sublist_Cons_right)
qed

lemma dots_literal:
  "\<not> list_ex (\<lambda>c. re_special c \<or> c = 46) p \<Longrightarrow> compile dots p = Some (sublist p)"
proof -
  assume a: "\<not> list_ex (\<lambda>c. re_special c \<or> c = 46) p"
  then have 1: "\<not> list_ex re_special p" and 2: "\<not> list_ex (\<lambda>c. c = 46) p"
    by (auto simp: list_ex_iff)
  have "search p = sublist p" using search_literal [OF 2] by (intro ext)
  then show ?thesis using 1 by (simp add: dots_def)
qed

lemma filter_by_department_InrD:
  assumes "filter_by_department U R d dept = Inr (d', v)"
  shows "\<exists>ig cic pr m.
    assign_dept_norm U (infogeneral d) DEPT_COL_INFO = Inr ig \<and>
    assign_dept_norm U (ciclope d) DEPARTAMENTO = Inr cic \<and>
    assign_dept_norm U (proyectos d) DEPARTAMENTO = Inr pr \<and>
    d' = d\<lparr>infogeneral := ig, ciclope := cic, proyectos := pr\<rparr> \<and>
    where_eq ig DEPT_NORM (norm_text U (PyStr dept)) = Inr m \<and>
    info v = m\<lparr>rows := head 1 (rows m)\<rparr> \<and>
    where_eq cic DEPT_NORM (norm_text U (PyStr dept)) = Inr (cic_dept v) \<and>
    where_eq pr DEPT_NORM (norm_text U (PyStr dept)) = Inr (proj_dept v) \<and>
    colcol_filter R (colcol d) dept = Inr (colcol_dept v) \<and>
    contr_filter (contrapartidas d) dept = Inr (contr_dept v)"
  using assms unfolding filter_by_department_def Let_def then_do_Inr_iff
  by auto

lemma assign_dept_norm_InrD:
  "assign_dept_norm U t c = Inr t' \<Longrightarrow> c \<in> set (columns t)"
  by (cases "c \<in> set (columns t)") (simp_all add: assign_dept_norm_absent)

lemma wf_example:
  "wf_table (infogeneral example_dataset)" "wf_table (ciclope example_dataset)"
  "wf_table (proyectos example_dataset)"
  by (simp_all add: example_dataset_def wf_table_def DEPT_COL_INFO_def DEPARTAMENTO_def str_def)

text \<open>
  Claim C1. When the filter returns, the records of \<open>cic_dept\<close> and of \<open>proj_dept\<close> are
  exactly the records of \<open>ciclope\<close> and of \<open>proyectos\<close>, in their order, whose own
  \<open>DEPARTAMENTO\<close> cell normalizes to the normalization of the selected department, each
  with its normalized key under \<open>DEPT_NORM\<close>. "bogota" and "BOGOTA" with an accented A
  (U+00C1) normalize to the same key, so selecting the first keeps a record of the second.
\<close>

theorem department_filter_normalized:
  "(filter_by_department U R d dept = Inr (d', v) \<and> wf_table (ciclope d) \<and>
    wf_table (proyectos d) \<longrightarrow>
      rows (cic_dept v) =
        map (\<lambda>r. with_cell (ciclope d) DEPT_NORM
                   (PyStr (norm_text U (cell_of (ciclope d) DEPARTAMENTO r))) r)
          (filter (\<lambda>r. norm_text U (cell_of (ciclope d) DEPARTAMENTO r) = norm_text U (PyStr dept))
             (rows (ciclope d))) \<and>
      rows (proj_dept v) =
        map (\<lambda>r. with_cell (proyectos d) DEPT_NORM
                   (PyStr (norm_text U (cell_of (proyectos d) DEPARTAMENTO r))) r)
          (filter (\<lambda>r. norm_text U (cell_of (proyectos d) DEPARTAMENTO r) = norm_text U (PyStr dept))
             (rows (proyectos d)))) \<and>
   norm_text latin1 (PyStr (str ''bogota'')) = norm_text latin1 (PyStr bogota_acento)"
proof (intro conjI impI)
  assume a: "filter_by_department U R d dept = Inr (d', v) \<and> wf_table (ciclope d) \<and>
    wf_table (proyectos d)"
  then obtain cic pr where
    c1: "assign_dept_norm U (ciclope d) DEPARTAMENTO = Inr cic" and
    p1: "assign_dept_norm U (proyectos d) DEPARTAMENTO = Inr pr" and
    c2: "where_eq cic DEPT_NORM (norm_text U (PyStr dept)) = Inr (cic_dept v)" and
    p2: "where_eq pr DEPT_NORM (norm_text U (PyStr dept)) = Inr (proj_dept v)"
    using filter_by_department_InrD [of U R d dept d' v] by blast
  show "rows (cic_dept v) =
        map (\<lambda>r. with_cell (ciclope d) DEPT_NORM
                   (PyStr (norm_text U (cell_of (ciclope d) DEPARTAMENTO r))) r)
          (filter (\<lambda>r. norm_text U (cell_of (ciclope d) DEPARTAMENTO r) = norm_text U (PyStr dept))
             (rows (ciclope d)))"
    using normalized_subset [OF _ assign_dept_norm_InrD [OF c1] c1, of "norm_text U (PyStr dept)"]
      a c2 by simp
  show "rows (proj_dept v) =
        map (\<lambda>r. with_cell (proyectos d) DEPT_NORM
                   (PyStr (norm_text U (cell_of (proyectos d) DEPARTAMENTO r))) r)
          (filter (\<lambda>r. norm_text U (cell_of (proyectos d) DEPARTAMENTO r) = norm_text U (PyStr dept))
             (rows (proyectos d)))"
    using normalized_subset [OF _ assign_dept_norm_InrD [OF p1] p1, of "norm_text U (PyStr dept)"]
      a p2 by simp
next
  show "norm_text latin1 (PyStr (str ''bogota'')) = norm_text latin1 (PyStr bogota_acento)"
    by (simp add: norm_bogota norm_bogota_acento)
qed

theorem department_filter_normalized_witness:
  "filter_by_department latin1 dots example_dataset (str ''bogota'') =
     Inr (example_after, bogota_views) \<and>
   rows (cic_dept bogota_views) =
     map (\<lambda>r. with_cell (ciclope example_dataset) DEPT_NORM
                (PyStr (norm_text latin1 (cell_of (ciclope example_dataset) DEPARTAMENTO r))) r)
       (filter (\<lambda>r. norm_text latin1 (cell_of (ciclope example_dataset) DEPARTAMENTO r) =
                  norm_text latin1 (PyStr (str ''bogota'')))
          (rows (ciclope example_dataset))) \<and>
   rows (cic_dept bogota_views) =
     [[PyStr bogota_acento, PyStr (str ''A''), PyInt 10, PyStr (str ''BOGOTA'')],
      [PyStr (str ''bogota''), PyStr (str ''A''), PyInt 5, PyStr (str ''BOGOTA'')]]"
  using department_filter_normalized
    [where U = latin1 and R = dots and d = example_dataset and dept = "str ''bogota''"
       and d' = example_after and v = bogota_views]
    example_run wf_example
  by (simp add: bogota_views_def)

text \<open>
  Claim C2, amended. When the filter returns, the selection compiles as a regular
  expression and \<open>colcol_dept\<close> holds exactly the records of \<open>colcol\<close> whose "developed
  in" cell, as text, equals the selection or in whose "participating departments" or
  "MAY departments" cell, as text, the expression is found; \<open>contr_dept\<close> holds exactly
  the records whose raw department cell is the selection, and none when the column is
  absent. For a selection without special characters, finding the expression is finding
  the selection as a literal substring. Neither comparison normalizes: selecting "bogota"
  keeps no record stored as "BOGOTA" with an accented A.
\<close>

theorem department_filter_raw:
  "(filter_by_department U R d dept = Inr (d', v) \<longrightarrow>
      (\<exists>found. compile R dept = Some found \<and>
         colcol_dept v =
           (colcol d)\<lparr>rows :=
              filter (\<lambda>r. py_str (cell_of (colcol d) DESARROLLO r) = dept \<or>
                          found (py_str (cell_of (colcol d) PARTICIPANTES r)) \<or>
                          found (py_str (cell_of (colcol d) MAY r)))
                (rows (colcol d))\<rparr>) \<and>
      contr_dept v =
        (contrapartidas d)\<lparr>rows :=
           (if DEPT_COL_INFO \<in> set (columns (contrapartidas d))
            then filter (\<lambda>r. cell_of (contrapartidas d) DEPT_COL_INFO r = PyStr dept)
                   (rows (contrapartidas d))
            else [])\<rparr>) \<and>
   (\<not> list_ex (\<lambda>c. re_special c \<or> c = 46) p \<longrightarrow> compile dots p = Some (sublist p)) \<and>
   colcol_filter dots bogota_row_colcol (str ''bogota'') = Inr (bogota_row_colcol\<lparr>rows := []\<rparr>) \<and>
   contr_filter bogota_row_contr (str ''bogota'') = Inr (bogota_row_contr\<lparr>rows := []\<rparr>)"
proof (intro conjI impI)
  assume a: "filter_by_department U R d dept = Inr (d', v)"
  then have c: "colcol_filter R (colcol d) dept = Inr (colcol_dept v)"
    and k: "contr_filter (contrapartidas d) dept = Inr (contr_dept v)"
    using filter_by_department_InrD [of U R d dept d' v] by blast+
  from colcol_filter_Inr [OF c] obtain found where
    p: "DESARROLLO \<in> set (columns (colcol d))" "PARTICIPANTES \<in> set (columns (colcol d))"
      "MAY \<in> set (columns (colcol d))" and f: "compile R dept = Some found"
    by blast
  show "\<exists>found. compile R dept = Some found \<and>
         colcol_dept v =
           (colcol d)\<lparr>rows :=
              filter (\<lambda>r. py_str (cell_of (colcol d) DESARROLLO r) = dept \<or>
                          found (py_str (cell_of (colcol d) PARTICIPANTES r)) \<or>
                          found (py_str (cell_of (colcol d) MAY r)))
                (rows (colcol d))\<rparr>"
    using colcol_filter_present [OF p f] c f by simp
  show "contr_dept v =
        (contrapartidas d)\<lparr>rows :=
           (if DEPT_COL_INFO \<in> set (columns (contrapartidas d))
            then filter (\<lambda>r. cell_of (contrapartidas d) DEPT_COL_INFO r = PyStr dept)
                   (rows (contrapartidas d))
            else [])\<rparr>"
    using k contr_filter_eq [of "contrapartidas d" dept] by simp
next
  assume "\<not> list_ex (\<lambda>c. re_special c \<or> c = 46) p"
  then show "compile dots p = Some (sublist p)" by (rule dots_literal)
next
  show "colcol_filter dots bogota_row_colcol (str ''bogota'') = Inr (bogota_row_colcol\<lparr>rows := []\<rparr>)"
    by (simp add: bogota_row_colcol_def frame_eval colcol_filter_def get_def
      str_contains_def series_or_def dots_def re_special_def)
next
  show "contr_filter bogota_row_contr (str ''bogota'') = Inr (bogota_row_contr\<lparr>rows := []\<rparr>)"
    by (simp add: bogota_row_contr_def frame_eval contr_filter_def)
qed

theorem department_filter_raw_witness:
  "filter_by_department latin1 dots example_dataset (str ''bogota'') =
     Inr (example_after, bogota_views) \<and>
   ((\<exists>found. compile dots (str ''bogota'') = Some found \<and>
       colcol_dept bogota_views =
         (colcol example_dataset)\<lparr>rows :=
            filter (\<lambda>r. py_str (cell_of (colcol example_dataset) DESARROLLO r) = str ''bogota'' \<or>
                        found (py_str (cell_of (colcol example_dataset) PARTICIPANTES r)) \<or>
                        found (py_str (cell_of (colcol example_dataset) MAY r)))
              (rows (colcol example_dataset))\<rparr>) \<and>
    contr_dept bogota_views =
      (contrapartidas example_dataset)\<lparr>rows :=
         (if DEPT_COL_INFO \<in> set (columns (contrapartidas example_dataset))
          then filter (\<lambda>r. cell_of (contrapartidas example_dataset) DEPT_COL_INFO r =
                            PyStr (str ''bogota''))
                 (rows (contrapartidas example_dataset))
          else [])\<rparr>) \<and>
   compile dots (str ''bogota'') = Some (sublist (str ''bogota'')) \<and>
   rows (colcol_dept bogota_views) =
     [[PyStr (str ''bogota''), PyStr [], PyStr []],
      [PyStr (str ''Cauca''), PyStr (str ''Cauca, bogota''), PyStr []]] \<and>
   rows (contr_dept bogota_views) = [[PyStr (str ''bogota''), PyInt 2]]"
proof -
  have l: "\<not> list_ex (\<lambda>c. re_special c \<or> c = 46) (str ''bogota'')"
    by (simp add: re_special_def str_def)
  note t = department_filter_raw
    [where U = latin1 and R = dots and d = example_dataset and dept = "str ''bogota''"
       and d' = example_after and v = bogota_views and p = "str ''bogota''"]
  have a: "(\<exists>found. compile dots (str ''bogota'') = Some found \<and>
       colcol_dept bogota_views =
         (colcol example_dataset)\<lparr>rows :=
            filter (\<lambda>r. py_str (cell_of (colcol example_dataset) DESARROLLO r) = str ''bogota'' \<or>
                        found (py_str (cell_of (colcol example_dataset) PARTICIPANTES r)) \<or>
                        found (py_str (cell_of (colcol example_dataset) MAY r)))
              (rows (colcol example_dataset))\<rparr>) \<and>
    contr_dept bogota_views =
      (contrapartidas example_dataset)\<lparr>rows :=
         (if DEPT_COL_INFO \<in> set (columns (contrapartidas example_dataset))
          then filter (\<lambda>r. cell_of (contrapartidas example_dataset) DEPT_COL_INFO r =
                            PyStr (str ''bogota''))
                 (rows (contrapartidas example_dataset))
          else [])\<rparr>"
    by (rule mp [OF conjunct1 [OF t] example_run])
  have c: "compile dots (str ''bogota'') = Some (sublist (str ''bogota''))"
    by (rule mp [OF conjunct1 [OF conjunct2 [OF t]] l])
  have r1: "rows (colcol_dept bogota_views) =
     [[PyStr (str ''bogota''), PyStr [], PyStr []],
      [PyStr (str ''Cauca''), PyStr (str ''Cauca, bogota''), PyStr []]]"
    by (simp add: bogota_views_def)
  have r2: "rows (contr_dept bogota_views) = [[PyStr (str ''bogota''), PyInt 2]]"
    by (simp add: bogota_views_def)
  show ?thesis
    by (intro conjI example_run c r1 r2 conjunct1 [OF a] conjunct2 [OF a])
qed

text \<open>
  Claim C2 as stated, with containment of the selection as a literal substring, fails:
  the selection "D.C" keeps a record whose participating departments are "DXC": the dot
  of the selection matches any character, while "D.C" is no substring of "DXC" and none of
  the three conditions on raw texts holds of the record.
\<close>

theorem literal_substring_counterexample:
  "colcol_filter dots dot_colcol (str ''D.C'') = Inr dot_colcol \<and>
   rows dot_colcol = [[PyStr (str ''X''), PyStr (str ''DXC''), PyStr []]] \<and>
   py_str (PyStr (str ''X'')) \<noteq> str ''D.C'' \<and>
   \<not> sublist (str ''D.C'') (py_str (PyStr (str ''DXC''))) \<and>
   \<not> sublist (str ''D.C'') (py_str (PyStr []))"
  by (simp add: dot_colcol_def frame_eval colcol_filter_def get_def
      str_contains_def series_or_def dots_def re_special_def sublist_Cons_right)

text \<open>
  Claim C5 fails on the code. On a \<open>colcol\<close> frame without the "DEPARTAMENTOS MAY"
  column, \<open>colcol.get(..., "")\<close> is the text \<open>""\<close>, which has no \<open>astype\<close>: the filter
  raises \<open>AttributeError\<close> instead of treating the column as matching nothing.
\<close>

theorem colcol_missing_column_raises:
  "colcol_filter dots colcol_without_may (str ''Cauca'') = Inl AttributeError"
  by (simp add: colcol_without_may_def frame_eval colcol_filter_def get_def
      str_contains_def series_or_def dots_def re_special_def)

lemma assign_dept_norm_frame:
  assumes wf: "wf_table t" and a: "assign_dept_norm U t c = Inr t'"
  shows "same_but_dept_norm t t'"
    and "column t' DEPT_NORM = Inr (map (\<lambda>r. PyStr (norm_text U (cell_of t c r))) (rows t))"
proof -
  let ?cols = "if DEPT_NORM \<in> set (columns t) then columns t else columns t @ [DEPT_NORM]"
  let ?F = "\<lambda>r. with_cell t DEPT_NORM (PyStr (norm_text U (cell_of t c r))) r"
  have c: "c \<in> set (columns t)" using a by (rule assign_dept_norm_InrD)
  have t': "t' = \<lparr>columns = ?cols, rows = map ?F (rows t)\<rparr>"
    using a assign_dept_norm_present [OF c, of U] by simp
  have len: "\<And>r. r \<in> set (rows t) \<Longrightarrow> length r = length (columns t)"
    using wf by (simp add: wf_table_def list_all_iff)
  have other: "column t' c' = column t c'" if "c' \<in> set (columns t)" "c' \<noteq> DEPT_NORM" for c'
  proof -
    have in': "c' \<in> set (columns t')" using that(1) by (simp add: t')
    have "map (cell_of t' c') (rows t') = map (cell_of t c') (rows t)"
      unfolding t' using cell_of_with_cell_other [OF len that(2) that(1)]
      by (simp add: comp_def)
    then show ?thesis by (simp add: column_eq [OF in'] column_eq [OF that(1)])
  qed
  have cols: "columns t' = ?cols" and n: "length (rows t') = length (rows t)"
    by (simp_all add: t')
  have "\<And>c'. c' \<in> set (columns t) \<Longrightarrow> c' = DEPT_NORM \<or> column t' c' = column t c'"
    using other by blast
  then have "list_all (\<lambda>c'. c' = DEPT_NORM \<or> column t' c' = column t c') (columns t)"
    unfolding list_all_iff by blast
  then show "same_but_dept_norm t t'"
    unfolding same_but_dept_norm_def using cols n by blast
  have "DEPT_NORM \<in> set (columns t')" by (simp add: t')
  moreover have "map (cell_of t' DEPT_NORM) (rows t')
      = map (\<lambda>r. PyStr (norm_text U (cell_of t c r))) (rows t)"
    unfolding t' using cell_of_with_cell_same [OF len] by (simp add: comp_def)
  ultimately show "column t' DEPT_NORM = Inr (map (\<lambda>r. PyStr (norm_text U (cell_of t c r))) (rows t))"
    by (simp add: column_eq)
qed

text \<open>
  Claim C6, amended. Computing the filtered views leaves \<open>plan\<close>, \<open>colcol\<close> and
  \<open>contrapartidas\<close> as loaded. To \<open>infogeneral\<close>, \<open>ciclope\<close> and \<open>proyectos\<close> it adds one
  column, \<open>DEPT_NORM\<close> (overwritten if the frame had it), holding the normalized department
  of every record; the number of records and every other column stay as loaded, cell by
  cell.
\<close>

theorem filter_frame:
  "filter_by_department U R d dept = Inr (d', v) \<and> wf_table (infogeneral d) \<and>
   wf_table (ciclope d) \<and> wf_table (proyectos d) \<longrightarrow>
     plan d' = plan d \<and> colcol d' = colcol d \<and> contrapartidas d' = contrapartidas d \<and>
     same_but_dept_norm (infogeneral d) (infogeneral d') \<and>
     same_but_dept_norm (ciclope d) (ciclope d') \<and>
     same_but_dept_norm (proyectos d) (proyectos d') \<and>
     column (infogeneral d') DEPT_NORM =
       Inr (map (\<lambda>r. PyStr (norm_text U (cell_of (infogeneral d) DEPT_COL_INFO r)))
              (rows (infogeneral d))) \<and>
     column (ciclope d') DEPT_NORM =
       Inr (map (\<lambda>r. PyStr (norm_text U (cell_of (ciclope d) DEPARTAMENTO r)))
              (rows (ciclope d))) \<and>
     column (proyectos d') DEPT_NORM =
       Inr (map (\<lambda>r. PyStr (norm_text U (cell_of (proyectos d) DEPARTAMENTO r)))
              (rows (proyectos d)))"
proof
  assume a: "filter_by_department U R d dept = Inr (d', v) \<and> wf_table (infogeneral d) \<and>
   wf_table (ciclope d) \<and> wf_table (proyectos d)"
  then obtain ig cic pr where
    i: "assign_dept_norm U (infogeneral d) DEPT_COL_INFO = Inr ig" and
    c: "assign_dept_norm U (ciclope d) DEPARTAMENTO = Inr cic" and
    p: "assign_dept_norm U (proyectos d) DEPARTAMENTO = Inr pr" and
    d': "d' = d\<lparr>infogeneral := ig, ciclope := cic, proyectos := pr\<rparr>"
    using filter_by_department_InrD [of U R d dept d' v] by blast
  have wi: "wf_table (infogeneral d)" and wc: "wf_table (ciclope d)"
    and wp: "wf_table (proyectos d)" using a by simp_all
  show "plan d' = plan d \<and> colcol d' = colcol d \<and> contrapartidas d' = contrapartidas d \<and>
     same_but_dept_norm (infogeneral d) (infogeneral d') \<and>
     same_but_dept_norm (ciclope d) (ciclope d') \<and>
     same_but_dept_norm (proyectos d) (proyectos d') \<and>
     column (infogeneral d') DEPT_NORM =
       Inr (map (\<lambda>r. PyStr (norm_text U (cell_of (infogeneral d) DEPT_COL_INFO r)))
              (rows (infogeneral d))) \<and>
     column (ciclope d') DEPT_NORM =
       Inr (map (\<lambda>r. PyStr (norm_text U (cell_of (ciclope d) DEPARTAMENTO r)))
              (rows (ciclope d))) \<and>
     column (proyectos d') DEPT_NORM =
       Inr (map (\<lambda>r. PyStr (norm_text U (cell_of (proyectos d) DEPARTAMENTO r)))
              (rows (proyectos d)))"
    using assign_dept_norm_frame [OF wi i] assign_dept_norm_frame [OF wc c]
      assign_dept_norm_frame [OF wp p]
    by (simp add: d')
qed

theorem filter_frame_witness:
  "filter_by_department latin1 dots example_dataset (str ''bogota'') =
     Inr (example_after, bogota_views) \<and>
   colcol example_after = colcol example_dataset \<and>
   same_but_dept_norm (ciclope example_dataset) (ciclope example_after) \<and>
   column (ciclope example_after) DEPT_NORM =
     Inr (map (\<lambda>r. PyStr (norm_text latin1 (cell_of (ciclope example_dataset) DEPARTAMENTO r)))
            (rows (ciclope example_dataset))) \<and>
   column (ciclope example_after) DEPT_NORM =
     Inr [PyStr (str ''BOGOTA''), PyStr (str ''CAUCA''), PyStr (str ''BOGOTA'')]"
proof -
  have h: "filter_by_department latin1 dots example_dataset (str ''bogota'') =
      Inr (example_after, bogota_views) \<and> wf_table (infogeneral example_dataset) \<and>
      wf_table (ciclope example_dataset) \<and> wf_table (proyectos example_dataset)"
    by (intro conjI example_run wf_example)
  note t = mp [OF filter_frame
    [where U = latin1 and R = dots and d = example_dataset and dept = "str ''bogota''"
       and d' = example_after and v = bogota_views] h]
  have e: "column (ciclope example_after) DEPT_NORM =
     Inr [PyStr (str ''BOGOTA''), PyStr (str ''CAUCA''), PyStr (str ''BOGOTA'')]"
    by (simp add: example_after_def column_def DEPT_NORM_def DEPARTAMENTO_def str_def)
  show ?thesis
    using t by (intro conjI example_run e) simp_all
qed

text \<open>
  Claim C6 as stated fails: the loaded \<open>ciclope\<close> frame has three columns before the
  filter runs and four after it.
\<close>

theorem filter_mutates_counterexample:
  "filter_by_department latin1 dots example_dataset (str ''bogota'') =
     Inr (example_after, bogota_views) \<and>
   columns (ciclope example_dataset) =
     [DEPARTAMENTO, PyStr (str ''NOMBRE ACTOR''), PyStr (str ''VALOR APORTE (USD)'')] \<and>
   columns (ciclope example_after) =
     [DEPARTAMENTO, PyStr (str ''NOMBRE ACTOR''), PyStr (str ''VALOR APORTE (USD)''), DEPT_NORM] \<and>
   ciclope example_after \<noteq> ciclope example_dataset"
proof -
  have 1: "columns (ciclope example_dataset) =
     [DEPARTAMENTO, PyStr (str ''NOMBRE ACTOR''), PyStr (str ''VALOR APORTE (USD)'')]"
    by (simp add: example_dataset_def)
  have 2: "columns (ciclope example_after) =
     [DEPARTAMENTO, PyStr (str ''NOMBRE ACTOR''), PyStr (str ''VALOR APORTE (USD)''), DEPT_NORM]"
    by (simp add: example_after_def)
  have "columns (ciclope example_after) \<noteq> columns (ciclope example_dataset)"
    unfolding 1 2 by simp
  then have 3: "ciclope example_after \<noteq> ciclope example_dataset" by auto
  show ?thesis by (intro conjI example_run 1 2 3)
qed

section \<open>Properties of the project listing and its export\<close>

lemma to_csv_eq:
  "to_csv df = writerow (map csv_text (columns df)) @
     concat (map (\<lambda>r. writerow (map csv_text r)) (rows df))"
proof -
  have "foldl (\<lambda>buffer r. buffer @ writerow (map csv_text r)) b rs
      = b @ concat (map (\<lambda>r. writerow (map csv_text r)) rs)" for b rs
    by (induction rs arbitrary: b) simp_all
  then show ?thesis by (simp add: to_csv_def)
qed

lemma encode_utf8_total: "list_all encodable s \<Longrightarrow> \<exists>bs. encode_utf8 s = Inr bs"
proof (induction s)
  case Nil
  then show ?case by simp
next
  case (Cons c s)
  then obtain bs where bs: "encode_utf8 s = Inr bs" by auto
  have "encodable c" using Cons.prems by simp
  then have "\<exists>b. utf8_char c = Inr b"
    by (auto simp: encodable_def utf8_char_def)
  then show ?case using bs by auto
qed

lemma tab2_InrD:
  assumes "tab2 R proj dept text_input = Inr (df, dl)"
  shows "encode_utf8 (to_csv df) = Inr (data dl)"
    and "file_name dl = str ''proyectos_aod_'' @ dept @ str ''.csv''"
    and "mime dl = str ''text/csv''"
    and "columns df = columns proj"
    and "strip text_input = [] \<longrightarrow> df = proj"
proof -
  let ?cols = "filter (\<lambda>c. c \<in> set (columns proj)) candidate_cols"
  let ?shown = "if strip text_input \<noteq> [] \<and> \<not> empty proj \<and> ?cols \<noteq> []
         then then_do (search_mask R proj (strip text_input)
                (replicate (length (rows proj)) False) ?cols) (\<lambda>bs. Inr (select proj bs))
         else Inr proj"
  from assms obtain bytes where
    s: "?shown = Inr df" and e: "encode_utf8 (to_csv df) = Inr bytes" and
    d: "dl = \<lparr>data = bytes, file_name = str ''proyectos_aod_'' @ dept @ str ''.csv'',
                mime = str ''text/csv''\<rparr>"
    unfolding tab2_def Let_def then_do_Inr_iff by auto
  show "encode_utf8 (to_csv df) = Inr (data dl)" using e d by simp
  show "file_name dl = str ''proyectos_aod_'' @ dept @ str ''.csv''" using d by simp
  show "mime dl = str ''text/csv''" using d by simp
  show "columns df = columns proj"
    using s by (auto simp: then_do_Inr_iff select_def split: if_splits)
  show "strip text_input = [] \<longrightarrow> df = proj"
    using s by auto
qed

lemma tab2_no_search:
  assumes "strip text_input = []" "encode_utf8 (to_csv proj) = Inr bytes"
  shows "tab2 R proj dept text_input =
    Inr (proj, \<lparr>data = bytes, file_name = str ''proyectos_aod_'' @ dept @ str ''.csv'',
                mime = str ''text/csv''\<rparr>)"
  using assms by (simp add: tab2_def)

text \<open>
  Claim C9. The file offered for download is named \<open>proyectos_aod_<department>.csv\<close> and
  holds the UTF-8 encoding of the listing as shown: the header record made of the labels of
  the shown frame in their order, then one record per row of that frame in row order; a
  frame without rows gives the header record alone. The shown frame has the columns of the
  filtered projects and, with an empty search box, is that frame; in that case, when no
  text of it holds a surrogate, the file is produced.
\<close>

theorem export_csv:
  "(tab2 R proj dept text_input = Inr (df, dl) \<longrightarrow>
      file_name dl = str ''proyectos_aod_'' @ dept @ str ''.csv'' \<and>
      encode_utf8 (writerow (map csv_text (columns df)) @
        concat (map (\<lambda>r. writerow (map csv_text r)) (rows df))) = Inr (data dl) \<and>
      (rows df = [] \<longrightarrow> encode_utf8 (writerow (map csv_text (columns df))) = Inr (data dl)) \<and>
      columns df = columns proj \<and>
      (strip text_input = [] \<longrightarrow> df = proj)) \<and>
   (strip text_input = [] \<and> list_all encodable (to_csv proj) \<longrightarrow>
      (\<exists>dl. tab2 R proj dept text_input = Inr (proj, dl)))"
proof (intro conjI impI)
  assume a: "tab2 R proj dept text_input = Inr (df, dl)"
  show "file_name dl = str ''proyectos_aod_'' @ dept @ str ''.csv''"
    using tab2_InrD(2) [OF a] .
  show e: "encode_utf8 (writerow (map csv_text (columns df)) @
        concat (map (\<lambda>r. writerow (map csv_text r)) (rows df))) = Inr (data dl)"
    using tab2_InrD(1) [OF a] by (simp add: to_csv_eq)
  show "columns df = columns proj" using tab2_InrD(4) [OF a] .
  show "df = proj" if "strip text_input = []" using tab2_InrD(5) [OF a] that by simp
  show "encode_utf8 (writerow (map csv_text (columns df))) = Inr (data dl)" if "rows df = []"
    using e that by simp
next
  assume "strip text_input = [] \<and> list_all encodable (to_csv proj)"
  then have s: "strip text_input = []" and "list_all encodable (to_csv proj)" by simp_all
  then obtain bytes where "encode_utf8 (to_csv proj) = Inr bytes"
    using encode_utf8_total by blast
  then show "\<exists>dl. tab2 R proj dept text_input = Inr (proj, dl)"
    using tab2_no_search [OF s] by blast
qed

lemma csv_listing:
  "to_csv (proj_dept bogota_views) =
     str ''DEPARTAMENTO,NOMBRE ACTOR,DEPT_NORM'' @ [10] @ bogota_acento @ str '',X,BOGOTA'' @ [10]"
  by (simp add: bogota_views_def to_csv_def writerow_def csv_field_def csv_special_def
      DEPARTAMENTO_def DEPT_NORM_def bogota_acento_def str_def)

lemma utf8_listing:
  "encode_utf8 (str ''DEPARTAMENTO,NOMBRE ACTOR,DEPT_NORM'' @ [10] @ bogota_acento @
      str '',X,BOGOTA'' @ [10]) =
   Inr (str ''DEPARTAMENTO,NOMBRE ACTOR,DEPT_NORM'' @ [10] @ str ''BOGOT'' @ [0xC3, 0x81] @
      str '',X,BOGOTA'' @ [10])"
  by (simp add: bogota_acento_def str_def utf8_char_def)

lemma run_search_nothing:
  "tab2 dots (proj_dept bogota_views) (str ''bogota'') (str '' zzz '') =
     Inr ((proj_dept bogota_views)\<lparr>rows := []\<rparr>,
          \<lparr>data = str ''DEPARTAMENTO,NOMBRE ACTOR,DEPT_NORM'' @ [10],
           file_name = str ''proyectos_aod_bogota.csv'', mime = str ''text/csv''\<rparr>)"
  by (simp add: tab2_def bogota_views_def strip_def is_space_def empty_def candidate_cols_def
      column_def str_contains_def dots_def re_special_def series_or_def select_def ascii_lower_def
      to_csv_def writerow_def csv_field_def csv_special_def utf8_char_def
      DEPARTAMENTO_def DEPT_NORM_def bogota_acento_def str_def)

theorem export_csv_witness:
  "tab2 dots (proj_dept bogota_views) (str ''bogota'') (str '' zzz '') =
     Inr ((proj_dept bogota_views)\<lparr>rows := []\<rparr>,
          \<lparr>data = str ''DEPARTAMENTO,NOMBRE ACTOR,DEPT_NORM'' @ [10],
           file_name = str ''proyectos_aod_bogota.csv'', mime = str ''text/csv''\<rparr>) \<and>
   encode_utf8 (writerow (map csv_text (columns (proj_dept bogota_views)))) =
     Inr (str ''DEPARTAMENTO,NOMBRE ACTOR,DEPT_NORM'' @ [10]) \<and>
   str ''proyectos_aod_bogota.csv'' = str ''proyectos_aod_'' @ str ''bogota'' @ str ''.csv'' \<and>
   (\<exists>dl. tab2 dots (proj_dept bogota_views) (str ''bogota'') [] =
      Inr (proj_dept bogota_views, dl))"
proof -
  note t = mp [OF conjunct1 [OF export_csv
    [where R = dots and proj = "proj_dept bogota_views" and dept = "str ''bogota''"
       and text_input = "str '' zzz ''" and df = "(proj_dept bogota_views)\<lparr>rows := []\<rparr>"
       and dl = "\<lparr>data = str ''DEPARTAMENTO,NOMBRE ACTOR,DEPT_NORM'' @ [10],
           file_name = str ''proyectos_aod_bogota.csv'', mime = str ''text/csv''\<rparr>"]]
    run_search_nothing]
  have 1: "encode_utf8 (writerow (map csv_text (columns (proj_dept bogota_views)))) =
     Inr (str ''DEPARTAMENTO,NOMBRE ACTOR,DEPT_NORM'' @ [10])"
    using t by simp
  have 2: "str ''proyectos_aod_bogota.csv'' = str ''proyectos_aod_'' @ str ''bogota'' @ str ''.csv''"
    using t by simp
  have h: "strip [] = [] \<and> list_all encodable (to_csv (proj_dept bogota_views))"
    unfolding csv_listing by (simp add: strip_def encodable_def bogota_acento_def str_def)
  have 3: "\<exists>dl. tab2 dots (proj_dept bogota_views) (str ''bogota'') [] =
      Inr (proj_dept bogota_views, dl)"
    by (rule mp [OF conjunct2 [OF export_csv
      [where R = dots and proj = "proj_dept bogota_views" and dept = "str ''bogota''"
         and text_input = "[]"]] h])
  show ?thesis by (intro conjI run_search_nothing 1 2 3)
qed

text \<open>
  Claim C7 fails on the code. For the example data and the selection "bogota", the frame
  shown on the second tab and the exported file both carry the \<open>DEPT_NORM\<close> column with
  the normalized key "BOGOTA": \<open>proj_dept\<close> is cut from \<open>proyectos\<close> after line 111 has
  added the column, and nothing drops it before \<open>st.dataframe\<close> and \<open>to_csv\<close>.
\<close>

theorem listing_shows_dept_norm:
  "filter_by_department latin1 dots example_dataset (str ''bogota'') =
     Inr (example_after, bogota_views) \<and>
   tab2 dots (proj_dept bogota_views) (str ''bogota'') [] =
     Inr (proj_dept bogota_views,
          \<lparr>data = str ''DEPARTAMENTO,NOMBRE ACTOR,DEPT_NORM'' @ [10] @ str ''BOGOT'' @
                    [0xC3, 0x81] @ str '',X,BOGOTA'' @ [10],
           file_name = str ''proyectos_aod_bogota.csv'', mime = str ''text/csv''\<rparr>) \<and>
   columns (proj_dept bogota_views) = [DEPARTAMENTO, PyStr (str ''NOMBRE ACTOR''), DEPT_NORM] \<and>
   rows (proj_dept bogota_views) = [[PyStr bogota_acento, PyStr (str ''X''), PyStr (str ''BOGOTA'')]]"
proof -
  have s: "strip [] = []" by (simp add: strip_def)
  have e: "encode_utf8 (to_csv (proj_dept bogota_views)) =
      Inr (str ''DEPARTAMENTO,NOMBRE ACTOR,DEPT_NORM'' @ [10] @ str ''BOGOT'' @ [0xC3, 0x81] @
      str '',X,BOGOTA'' @ [10])"
    unfolding csv_listing by (rule utf8_listing)
  have n: "str ''proyectos_aod_'' @ str ''bogota'' @ str ''.csv'' = str ''proyectos_aod_bogota.csv''"
    by (simp add: str_def)
  have t: "tab2 dots (proj_dept bogota_views) (str ''bogota'') [] =
     Inr (proj_dept bogota_views,
          \<lparr>data = str ''DEPARTAMENTO,NOMBRE ACTOR,DEPT_NORM'' @ [10] @ str ''BOGOT'' @
                    [0xC3, 0x81] @ str '',X,BOGOTA'' @ [10],
           file_name = str ''proyectos_aod_bogota.csv'', mime = str ''text/csv''\<rparr>)"
    using tab2_no_search [OF s e, of dots "str ''bogota''"] unfolding n .
  have c: "columns (proj_dept bogota_views) = [DEPARTAMENTO, PyStr (str ''NOMBRE ACTOR''), DEPT_NORM]"
    and r: "rows (proj_dept bogota_views) = [[PyStr bogota_acento, PyStr (str ''X''), PyStr (str ''BOGOTA'')]]"
    by (simp_all add: bogota_views_def)
  show ?thesis by (intro conjI example_run t c r)
qed

end
